theory Spec2Isabelle
  imports Main "HOL-Library.Char_ord" "HOL-Library.List_Lexorder"
begin

section \<open>Strings as the code uses them\<close>

text \<open>
  A JavaScript string is modelled by the bytes of its UTF-8 encoding, as a \<open>string\<close>: a
  character below U+0080 is the byte of its code, a character from U+0080 to U+07FF is a lead
  byte \<open>192 + cp div 64\<close> followed by a continuation byte \<open>128 + cp mod 64\<close>.  On
  well-formed text, searching for a substring or a suffix, splitting at \<open>/\<close> and
  concatenating give the same results on the bytes as on the characters.

  \<open>String.prototype.toLowerCase\<close> replaces every character by its lower-case mapping in the
  Unicode character database.  One mapping depends on the context: capital sigma (U+03A3)
  becomes final sigma (U+03C2) when a cased letter comes before it and none comes after it,
  case-ignorable characters in between being skipped, and small sigma (U+03C3) otherwise.
  The model covers the characters U+0000 to U+00FF (Basic Latin and Latin-1 Supplement) and
  U+0391 to U+03CE (the Greek letters); \<open>cased\<close>, \<open>case_ignorable\<close> and \<open>uppercase\<close> are
  the Unicode properties Cased and Case_Ignorable and the set of characters with a
  lower-case mapping, on these characters, where every lower-case mapping adds 32 to the
  code (sigma apart).  Bytes that encode no covered character are copied unchanged and end
  the context of a sigma: the model does not describe the case of other characters.
\<close>

definition ascii :: "char \<Rightarrow> bool" where
  "ascii c = (of_char c < (128::nat))"

definition cased :: "nat \<Rightarrow> bool" where
  "cased cp =
     ((65 \<le> cp \<and> cp \<le> 90) \<or> (97 \<le> cp \<and> cp \<le> 122)
      \<or> cp = 170 \<or> cp = 181 \<or> cp = 186
      \<or> (192 \<le> cp \<and> cp \<le> 214) \<or> (216 \<le> cp \<and> cp \<le> 246) \<or> (248 \<le> cp \<and> cp \<le> 255)
      \<or> (913 \<le> cp \<and> cp \<le> 929) \<or> (931 \<le> cp \<and> cp \<le> 974))"

definition case_ignorable :: "nat \<Rightarrow> bool" where
  "case_ignorable cp = (cp \<in> {39, 46, 58, 94, 96, 168, 173, 175, 180, 183, 184})"

definition uppercase :: "nat \<Rightarrow> bool" where
  "uppercase cp =
     ((65 \<le> cp \<and> cp \<le> 90)
      \<or> (192 \<le> cp \<and> cp \<le> 214) \<or> (216 \<le> cp \<and> cp \<le> 222)
      \<or> (913 \<le> cp \<and> cp \<le> 929) \<or> (931 \<le> cp \<and> cp \<le> 939))"

text \<open>A lead byte and a continuation byte that encode a covered character, and its code.\<close>

definition decode_point :: "char \<Rightarrow> char \<Rightarrow> nat" where
  "decode_point c b = (of_char c - 192) * 64 + (of_char b - 128)"

definition covered :: "nat \<Rightarrow> bool" where
  "covered cp = ((128 \<le> cp \<and> cp \<le> 255) \<or> (913 \<le> cp \<and> cp \<le> 974))"

definition two_bytes :: "char \<Rightarrow> char \<Rightarrow> bool" where
  "two_bytes c b =
     (192 \<le> (of_char c :: nat) \<and> (of_char c :: nat) < 224
      \<and> 128 \<le> (of_char b :: nat) \<and> (of_char b :: nat) < 192
      \<and> covered (decode_point c b))"

definition encode_point :: "nat \<Rightarrow> string" where
  "encode_point cp =
     (if cp < 128 then [char_of cp] else [char_of (192 + cp div 64), char_of (128 + cp mod 64)])"

text \<open>The text after a sigma starts with case-ignorable characters and then a cased
  letter.\<close>

fun cased_ahead :: "string \<Rightarrow> bool" where
  "cased_ahead [] = False"
| "cased_ahead [c] = (ascii c \<and> cased (of_char c))"
| "cased_ahead (c # b # rest) =
     (if ascii c then
        cased (of_char c) \<or> (case_ignorable (of_char c) \<and> cased_ahead (b # rest))
      else if two_bytes c b then
        cased (decode_point c b) \<or> (case_ignorable (decode_point c b) \<and> cased_ahead rest)
      else False)"

text \<open>The lower-case mapping of the character \<open>cp\<close>, where \<open>before\<close> tells whether the
  text before it ends with a cased letter and then case-ignorable characters, and \<open>rest\<close>
  is the text after it.\<close>

definition lower_point :: "bool \<Rightarrow> nat \<Rightarrow> string \<Rightarrow> nat" where
  "lower_point before cp rest =
     (if cp = 931 then (if before \<and> \<not> cased_ahead rest then 962 else 963)
      else if uppercase cp then cp + 32
      else cp)"

definition cased_before :: "bool \<Rightarrow> nat \<Rightarrow> bool" where
  "cased_before before cp = (cased cp \<or> (case_ignorable cp \<and> before))"

fun lower_scan :: "bool \<Rightarrow> string \<Rightarrow> string" where
  "lower_scan before [] = []"
| "lower_scan before [c] =
     (if ascii c then encode_point (lower_point before (of_char c) []) else [c])"
| "lower_scan before (c # b # rest) =
     (if ascii c then
        encode_point (lower_point before (of_char c) (b # rest))
          @ lower_scan (cased_before before (of_char c)) (b # rest)
      else if two_bytes c b then
        encode_point (lower_point before (decode_point c b) rest)
          @ lower_scan (cased_before before (decode_point c b)) rest
      else c # lower_scan False (b # rest))"

definition toLowerCase :: "string \<Rightarrow> string" where
  "toLowerCase s = lower_scan False s"

text \<open>\<open>s.startsWith(q)\<close>, \<open>s.endsWith(q)\<close> and \<open>s.includes(q)\<close>.\<close>

fun startsWith :: "string \<Rightarrow> string \<Rightarrow> bool" where
  "startsWith s [] = True"
| "startsWith [] (q # qs) = False"
| "startsWith (c # cs) (q # qs) = (c = q \<and> startsWith cs qs)"

definition endsWith :: "string \<Rightarrow> string \<Rightarrow> bool" where
  "endsWith s q = startsWith (rev s) (rev q)"

fun includes_str :: "string \<Rightarrow> string \<Rightarrow> bool" where
  "includes_str [] q = (q = [])"
| "includes_str (c # cs) q = (startsWith (c # cs) q \<or> includes_str cs q)"

text \<open>\<open>s.split('/')\<close> (never empty: the empty string splits into one empty part) and
  \<open>parts.join('/')\<close>.\<close>

fun split_slash :: "string \<Rightarrow> string list" where
  "split_slash [] = [[]]"
| "split_slash (c # cs) =
     (if c = CHR ''/'' then [] # split_slash cs
      else (case split_slash cs of
              [] \<Rightarrow> [[c]]
            | p # ps \<Rightarrow> (c # p) # ps))"

fun join_slash :: "string list \<Rightarrow> string" where
  "join_slash [] = []"
| "join_slash [p] = p"
| "join_slash (p # q # ps) = p @ ''/'' @ join_slash (q # ps)"

text \<open>\<open>String(v)\<close> for an id of type \<open>string | number\<close>.  Numeric ids are integers,
  printed in decimal as JavaScript prints the integers below \<open>10 ^ 21\<close>; fractions and the
  exponent notation of larger numbers are not modelled.\<close>

datatype raw_id = IdString string | IdNumber int

fun digits :: "nat \<Rightarrow> string" where
  "digits n =
     (if n < 10 then [''0123456789'' ! n]
      else digits (n div 10) @ [''0123456789'' ! (n mod 10)])"

fun String_of :: "raw_id \<Rightarrow> string" where
  "String_of (IdString s) = s"
| "String_of (IdNumber i) = (if i < 0 then ''-'' @ digits (nat (- i)) else digits (nat i))"

section \<open>The data model (types.ts)\<close>

datatype module_type = Js | Css | Image | Font | Json | Wasm | Unknown | MapT | Html

record size_info =
  raw :: nat
  gzip :: "nat option"

text \<open>\<open>NormalizedModule\<close>.  The d3 simulation coordinates (\<open>x\<close>, \<open>y\<close>, \<open>vx\<close>, \<open>vy\<close>,
  \<open>fx\<close>, \<open>fy\<close>) are all set to \<open>undefined\<close> by the normalizer and left out.\<close>

record normalized_module =
  nm_id :: string
  nm_name :: string
  nm_path :: string
  nm_size :: size_info
  nm_type :: module_type
  nm_dependencies :: "string list"
  nm_dependents :: "string list"
  nm_buildTime :: "nat option"

record normalized_asset =
  na_name :: string
  na_size :: size_info
  na_type :: module_type
  na_chunks :: "string list"

record normalized_chunk =
  nc_id :: string
  nc_name :: string
  nc_size :: size_info
  nc_modules :: "string list"

record normalized_build_stats =
  timestamp :: nat
  totalSize :: size_info
  totalTime :: "nat option"
  bs_modules :: "normalized_module list"
  bs_assets :: "normalized_asset list"
  bs_chunks :: "normalized_chunk list"
  entrypoints :: "string list"

text \<open>
  The raw Webpack records.  The interfaces declare \<open>name\<close> as required, but the records
  come from \<open>JSON.parse\<close> behind a cast and nothing checks them, so a record may reach the
  normalizer without it: \<open>wm_name\<close> and \<open>wa_name\<close> are optional here, and reading a
  method of an absent name is the \<open>TypeError\<close> of the source.  An absent \<open>names\<close> of a
  chunk is guarded by the code and behaves as the empty list.  The nested \<open>modules\<close> of a
  concatenated module is never read and is left out.

  Sizes are byte counts: every \<open>size\<close> is present and is a double that holds a non-negative
  integer (every integer up to \<open>2 ^ 53\<close> is one), modelled by that integer.  A record
  without a size (the code then stores \<open>undefined\<close> and \<open>NaN\<close> and raises nothing), a
  negative size and a fractional size cannot be written in this model, and the statements
  below say nothing about such inputs.
\<close>

record reason =
  moduleIdentifier :: string
  reason_type :: string

record webpack_module =
  wm_id :: raw_id
  wm_name :: "string option"
  wm_size :: nat
  wm_reasons :: "reason list option"
  wm_chunks :: "raw_id list option"

record webpack_asset =
  wa_name :: "string option"
  wa_size :: nat
  wa_chunks :: "raw_id list option"

record webpack_chunk =
  wc_id :: raw_id
  wc_names :: "string list"
  wc_size :: nat
  wc_modules :: "webpack_module list option"

record webpack_stats =
  ws_time :: "nat option"
  ws_assets :: "webpack_asset list option"
  ws_modules :: "webpack_module list option"
  ws_chunks :: "webpack_chunk list option"

datatype error = InvalidFormat | TypeError

section \<open>The normalizer\<close>

text \<open>
  Arithmetic on doubles.  The product and the sum of two doubles are the exact result
  rounded to 53 significant bits, to the nearest value and to the even one on a tie:
  \<open>round_even s p\<close> rounds \<open>p\<close> to a multiple of \<open>2 ^ s\<close>, and the \<open>bit_length p - 53\<close>
  lowest bits of \<open>p\<close> are the ones rounded away (none when \<open>p\<close> has at most 53 bits).
  The exponent is not bounded: the model describes the code as long as no result exceeds
  the largest double.
\<close>

fun bit_length :: "nat \<Rightarrow> nat" where
  "bit_length n = (if n = 0 then 0 else Suc (bit_length (n div 2)))"

declare bit_length.simps [simp del]

definition round_even :: "nat \<Rightarrow> nat \<Rightarrow> nat" where
  "round_even s p =
     (let q = p div 2 ^ s; r = p mod 2 ^ s in
      if 2 ^ s < 2 * r \<or> (2 * r = 2 ^ s \<and> odd q) then (q + 1) * 2 ^ s else q * 2 ^ s)"

text \<open>\<open>a + b\<close> on doubles that hold non-negative integers.\<close>

definition double_sum :: "nat \<Rightarrow> nat \<Rightarrow> nat" where
  "double_sum a b = round_even (bit_length (a + b) - 53) (a + b)"

text \<open>
  The literal \<open>0.3\<close> is the double \<open>5404319552844595 / 2 ^ 54\<close>.  \<open>times_three_tenths n\<close> is
  the double \<open>n * 0.3\<close> in units of \<open>2 ^ -54\<close>, and \<open>Math.floor(rawSize * 0.3)\<close> is its
  quotient by \<open>2 ^ 54\<close>.
\<close>

definition three_tenths :: nat where
  "three_tenths = 5404319552844595"

definition times_three_tenths :: "nat \<Rightarrow> nat" where
  "times_three_tenths n =
     round_even (bit_length (n * three_tenths) - 53) (n * three_tenths)"

definition approximateGzipSize :: "nat \<Rightarrow> nat" where
  "approximateGzipSize rawSize = times_three_tenths rawSize div 2 ^ 54"

definition getTypeFromName :: "string \<Rightarrow> module_type" where
  "getTypeFromName name =
     (let lowerName = toLowerCase name in
      if endsWith lowerName ''.js'' \<or> endsWith lowerName ''.jsx''
         \<or> endsWith lowerName ''.ts'' \<or> endsWith lowerName ''.tsx'' then Js
      else if endsWith lowerName ''.css'' \<or> endsWith lowerName ''.scss''
         \<or> endsWith lowerName ''.less'' then Css
      else if endsWith lowerName ''.png'' \<or> endsWith lowerName ''.jpg''
         \<or> endsWith lowerName ''.jpeg'' \<or> endsWith lowerName ''.gif''
         \<or> endsWith lowerName ''.svg'' then Image
      else if endsWith lowerName ''.woff'' \<or> endsWith lowerName ''.woff2''
         \<or> endsWith lowerName ''.ttf'' \<or> endsWith lowerName ''.otf'' then Font
      else if endsWith lowerName ''.json'' then Json
      else if endsWith lowerName ''.wasm'' then Wasm
      else if endsWith lowerName ''.map'' then MapT
      else if endsWith lowerName ''.html'' then Html
      else Unknown)"

text \<open>\<open>m.name.split('/').pop() || m.name\<close>: the last path part, or the whole name when
  that part is empty.\<close>

definition lastPart :: "string \<Rightarrow> string" where
  "lastPart name =
     (case rev (split_slash name) of
        [] \<Rightarrow> name
      | p # _ \<Rightarrow> (if p = [] then name else p))"

text \<open>The body of the first \<open>forEach\<close>: one raw module becomes one normalized module.\<close>

definition make_module :: "webpack_module \<Rightarrow> error + normalized_module" where
  "make_module m =
     (case wm_name m of
        None \<Rightarrow> Inl TypeError
      | Some name \<Rightarrow>
          Inr \<lparr> nm_id = String_of (wm_id m),
                nm_name = lastPart name,
                nm_path = name,
                nm_size = \<lparr> raw = wm_size m, gzip = Some (approximateGzipSize (wm_size m)) \<rparr>,
                nm_type = getTypeFromName name,
                nm_dependencies = [],
                nm_dependents = [],
                nm_buildTime = None \<rparr>)"

text \<open>
  The module objects are shared between \<open>normalizedModules\<close> and \<open>moduleMap\<close> and are
  mutated in the second pass.  The store is the list \<open>normalizedModules\<close> itself: an object
  is its position in the list, and \<open>moduleMap\<close> maps an id to the position of the object
  that was set last under that id.
\<close>

type_synonym module_map = "string \<Rightarrow> nat option"

fun creation_pass ::
  "webpack_module list \<Rightarrow> normalized_module list \<times> module_map
     \<Rightarrow> error + (normalized_module list \<times> module_map)" where
  "creation_pass [] st = Inr st"
| "creation_pass (m # ms) (normalizedModules, moduleMap) =
     (case make_module m of
        Inl e \<Rightarrow> Inl e
      | Inr normalizedModule \<Rightarrow>
          creation_pass ms
            (normalizedModules @ [normalizedModule],
             moduleMap(nm_id normalizedModule \<mapsto> length normalizedModules)))"

text \<open>Mutation of the object at a position of the store.\<close>

definition modify :: "nat \<Rightarrow> ('a \<Rightarrow> 'a) \<Rightarrow> 'a list \<Rightarrow> 'a list" where
  "modify i f xs = (if i < length xs then xs[i := f (xs ! i)] else xs)"

definition push_dependency :: "string \<Rightarrow> normalized_module \<Rightarrow> normalized_module" where
  "push_dependency t m = m\<lparr> nm_dependencies := nm_dependencies m @ [t] \<rparr>"

definition push_dependent :: "string \<Rightarrow> normalized_module \<Rightarrow> normalized_module" where
  "push_dependent s m = m\<lparr> nm_dependents := nm_dependents m @ [s] \<rparr>"

text \<open>The body of the inner \<open>forEach\<close> over the reasons of the source module.\<close>

definition add_reason ::
  "module_map \<Rightarrow> string \<Rightarrow> nat \<Rightarrow> reason \<Rightarrow> normalized_module list \<Rightarrow> normalized_module list" where
  "add_reason moduleMap sourceModuleId sourceModule r store =
     (let targetModuleId = moduleIdentifier r in
      if moduleMap targetModuleId \<noteq> None \<and> sourceModuleId \<noteq> targetModuleId then
        (let store1 = modify sourceModule (push_dependency targetModuleId) store in
         case moduleMap targetModuleId of
           None \<Rightarrow> store1
         | Some targetModule \<Rightarrow> modify targetModule (push_dependent sourceModuleId) store1)
      else store)"

definition resolve_module ::
  "module_map \<Rightarrow> webpack_module \<Rightarrow> normalized_module list \<Rightarrow> normalized_module list" where
  "resolve_module moduleMap m store =
     (let sourceModuleId = String_of (wm_id m) in
      case moduleMap sourceModuleId of
        None \<Rightarrow> store
      | Some sourceModule \<Rightarrow>
          (case wm_reasons m of
             None \<Rightarrow> store
           | Some rs \<Rightarrow> fold (add_reason moduleMap sourceModuleId sourceModule) rs store))"

definition resolution_pass ::
  "module_map \<Rightarrow> webpack_module list \<Rightarrow> normalized_module list \<Rightarrow> normalized_module list" where
  "resolution_pass moduleMap ms store = fold (resolve_module moduleMap) ms store"

definition process_modules ::
  "webpack_module list option \<Rightarrow> error + (normalized_module list \<times> module_map)" where
  "process_modules rawModules =
     (case rawModules of
        None \<Rightarrow> Inr ([], Map.empty)
      | Some ms \<Rightarrow>
          (case creation_pass ms ([], Map.empty) of
             Inl e \<Rightarrow> Inl e
           | Inr (normalizedModules, moduleMap) \<Rightarrow>
               Inr (resolution_pass moduleMap ms normalizedModules, moduleMap)))"

text \<open>Assets, with the two running totals (\<open>+=\<close> on doubles).\<close>

definition make_asset :: "webpack_asset \<Rightarrow> error + normalized_asset" where
  "make_asset a =
     (case wa_name a of
        None \<Rightarrow> Inl TypeError
      | Some name \<Rightarrow>
          Inr \<lparr> na_name = name,
                na_size = \<lparr> raw = wa_size a, gzip = Some (approximateGzipSize (wa_size a)) \<rparr>,
                na_type = getTypeFromName name,
                na_chunks = (case wa_chunks a of None \<Rightarrow> [] | Some cs \<Rightarrow> map String_of cs) \<rparr>)"

fun asset_pass ::
  "webpack_asset list \<Rightarrow> normalized_asset list \<times> nat \<times> nat
     \<Rightarrow> error + (normalized_asset list \<times> nat \<times> nat)" where
  "asset_pass [] st = Inr st"
| "asset_pass (a # as) (normalizedAssets, totalRawSize, totalGzipSize) =
     (case make_asset a of
        Inl e \<Rightarrow> Inl e
      | Inr normalizedAsset \<Rightarrow>
          asset_pass as
            (normalizedAssets @ [normalizedAsset],
             double_sum totalRawSize (wa_size a),
             double_sum totalGzipSize
               (case gzip (na_size normalizedAsset) of None \<Rightarrow> 0 | Some g \<Rightarrow> g)))"

definition process_assets ::
  "webpack_asset list option \<Rightarrow> error + (normalized_asset list \<times> nat \<times> nat)" where
  "process_assets rawAssets =
     (case rawAssets of
        None \<Rightarrow> Inr ([], 0, 0)
      | Some as \<Rightarrow> asset_pass as ([], 0, 0))"

text \<open>Chunks: the name is the first declared name, or the id when none is declared.\<close>

definition make_chunk :: "webpack_chunk \<Rightarrow> normalized_chunk" where
  "make_chunk c =
     (let id = String_of (wc_id c) in
      \<lparr> nc_id = id,
        nc_name = (case wc_names c of [] \<Rightarrow> id | n # _ \<Rightarrow> n),
        nc_size = \<lparr> raw = wc_size c, gzip = Some (approximateGzipSize (wc_size c)) \<rparr>,
        nc_modules = (case wc_modules c of
                        None \<Rightarrow> []
                      | Some ms \<Rightarrow> map (\<lambda>m. String_of (wm_id m)) ms) \<rparr>)"

definition process_chunks :: "webpack_chunk list option \<Rightarrow> normalized_chunk list" where
  "process_chunks rawChunks =
     (case rawChunks of
        None \<Rightarrow> []
      | Some cs \<Rightarrow> map make_chunk cs)"

text \<open>Entrypoints.  A string is truthy when it is not empty; \<open>find\<close> returns the first
  module id of the chunk that \<open>moduleMap\<close> has.\<close>

definition entrypoint_of :: "module_map \<Rightarrow> normalized_chunk \<Rightarrow> string list" where
  "entrypoint_of moduleMap chunk =
     (if nc_name chunk \<noteq> [] \<and> length (nc_modules chunk) > 0 then
        (case find (\<lambda>moduleId. moduleMap moduleId \<noteq> None) (nc_modules chunk) of
           None \<Rightarrow> []
         | Some firstModuleInChunk \<Rightarrow>
             (if firstModuleInChunk \<noteq> [] then [firstModuleInChunk] else []))
      else [])"

definition determine_entrypoints :: "module_map \<Rightarrow> normalized_chunk list \<Rightarrow> string list" where
  "determine_entrypoints moduleMap normalizedChunks =
     fold (\<lambda>chunk entrypoints. entrypoints @ entrypoint_of moduleMap chunk) normalizedChunks []"

text \<open>\<open>normalizeWebpackStats\<close>; \<open>now\<close> is the value \<open>Date.now()\<close> returns.\<close>

definition normalizeWebpackStats :: "nat \<Rightarrow> webpack_stats \<Rightarrow> error + normalized_build_stats" where
  "normalizeWebpackStats now rawStats =
     (case process_modules (ws_modules rawStats) of
        Inl e \<Rightarrow> Inl e
      | Inr (normalizedModules, moduleMap) \<Rightarrow>
          (case process_assets (ws_assets rawStats) of
             Inl e \<Rightarrow> Inl e
           | Inr (normalizedAssets, totalRawSize, totalGzipSize) \<Rightarrow>
               (let normalizedChunks = process_chunks (ws_chunks rawStats) in
                Inr \<lparr> timestamp = now,
                      totalSize = \<lparr> raw = totalRawSize, gzip = Some totalGzipSize \<rparr>,
                      totalTime = ws_time rawStats,
                      bs_modules = normalizedModules,
                      bs_assets = normalizedAssets,
                      bs_chunks = normalizedChunks,
                      entrypoints = determine_entrypoints moduleMap normalizedChunks \<rparr>)))"

text \<open>\<open>loadWebpackStats\<close> after the file has been read and parsed: the validation.  Its
  first test, \<open>!stats\<close>, is for a file that holds no object at all (JSON \<open>null\<close>); the
  model starts from a stats object.\<close>

definition loadWebpackStats :: "webpack_stats \<Rightarrow> error + webpack_stats" where
  "loadWebpackStats stats =
     (if ws_assets stats = None \<and> ws_modules stats = None \<and> ws_chunks stats = None
      then Inl InvalidFormat
      else Inr stats)"

text \<open>\<open>loadAndProcessStatsFile\<close>, from the parsed file on.\<close>

definition loadAndProcessStatsFile :: "nat \<Rightarrow> webpack_stats \<Rightarrow> error + normalized_build_stats" where
  "loadAndProcessStatsFile now parsed =
     (case loadWebpackStats parsed of
        Inl e \<Rightarrow> Inl e
      | Inr rawStats \<Rightarrow> normalizeWebpackStats now rawStats)"

section \<open>The documented mock input (ingestion.ts)\<close>

definition harmony :: "string \<Rightarrow> reason" where
  "harmony target = \<lparr> moduleIdentifier = target, reason_type = ''harmony import'' \<rparr>"

definition mock_module :: "string \<Rightarrow> nat \<Rightarrow> string list \<Rightarrow> string \<Rightarrow> webpack_module" where
  "mock_module name sz rs chunk =
     \<lparr> wm_id = IdString name, wm_name = Some name, wm_size = sz,
       wm_reasons = Some (map harmony rs), wm_chunks = Some [IdString chunk] \<rparr>"

text \<open>The modules listed inside a chunk carry \<open>id\<close>, \<open>name\<close> and \<open>size\<close> only.\<close>

definition chunk_module :: "string \<Rightarrow> nat \<Rightarrow> webpack_module" where
  "chunk_module name sz =
     \<lparr> wm_id = IdString name, wm_name = Some name, wm_size = sz,
       wm_reasons = None, wm_chunks = None \<rparr>"

definition mock_asset :: "string \<Rightarrow> nat \<Rightarrow> string list \<Rightarrow> webpack_asset" where
  "mock_asset name sz chunks =
     \<lparr> wa_name = Some name, wa_size = sz, wa_chunks = Some (map IdString chunks) \<rparr>"

definition mockWebpackStats :: webpack_stats where
  "mockWebpackStats =
     \<lparr> ws_time = Some 5200,
       ws_assets = Some
         [ mock_asset ''main.js'' 1200000 [''main''],
           mock_asset ''vendors.js'' 800000 [''vendors''],
           mock_asset ''style.css'' 150000 [''main''],
           mock_asset ''logo.png'' 75000 [],
           mock_asset ''app.js.map'' 300000 [''main''] ],
       ws_modules = Some
         [ mock_module ''./src/index.js'' 50000 [''./src/App.js''] ''main'',
           mock_module ''./src/App.js'' 80000
             [''./src/components/Button.js'', ''./node_modules/react/index.js''] ''main'',
           mock_module ''./src/components/Button.js'' 15000 [''./src/App.js''] ''main'',
           mock_module ''./node_modules/react/index.js'' 180000 [''./src/App.js''] ''vendors'',
           mock_module ''./node_modules/lodash/index.js'' 250000 [''./src/utils/data.js'']
             ''vendors'',
           mock_module ''./src/utils/data.js'' 10000 [''./src/App.js''] ''main'',
           mock_module ''./src/styles/main.css'' 70000 [] ''main'' ],
       ws_chunks = Some
         [ \<lparr> wc_id = IdString ''main'', wc_names = [''main''], wc_size = 1350000,
             wc_modules = Some
               [ chunk_module ''./src/index.js'' 50000,
                 chunk_module ''./src/App.js'' 80000,
                 chunk_module ''./src/components/Button.js'' 15000,
                 chunk_module ''./src/utils/data.js'' 10000,
                 chunk_module ''./src/styles/main.css'' 70000 ] \<rparr>,
           \<lparr> wc_id = IdString ''vendors'', wc_names = [''vendors''], wc_size = 430000,
             wc_modules = Some
               [ chunk_module ''./node_modules/react/index.js'' 180000,
                 chunk_module ''./node_modules/lodash/index.js'' 250000 ] \<rparr> ] \<rparr>"

section \<open>The filter (GraphVisualization.tsx, TreemapVisualization.tsx)\<close>

text \<open>\<open>activeTypes\<close> is a dictionary from type names to booleans; a missing key reads as
  \<open>undefined\<close>, which is falsy.\<close>

type_synonym active_types = "module_type \<Rightarrow> bool option"

definition filteredModules ::
  "normalized_build_stats option \<Rightarrow> string \<Rightarrow> active_types \<Rightarrow> normalized_module list" where
  "filteredModules stats searchTerm activeTypes =
     (case stats of
        None \<Rightarrow> []
      | Some s \<Rightarrow>
          (let lowerSearchTerm = toLowerCase searchTerm in
           filter (\<lambda>module.
                     activeTypes (nm_type module) = Some True \<and>
                     (includes_str (toLowerCase (nm_name module)) lowerSearchTerm \<or>
                      includes_str (toLowerCase (nm_path module)) lowerSearchTerm))
                  (bs_modules s)))"

text \<open>The dictionary the application starts with (App.tsx); the checkboxes toggle its
  seven keys.\<close>

definition initialActiveTypes :: active_types where
  "initialActiveTypes =
     [Js \<mapsto> True, Css \<mapsto> True, Image \<mapsto> True, Font \<mapsto> True, Json \<mapsto> True,
      Wasm \<mapsto> True, Unknown \<mapsto> True]"

section \<open>The hierarchy (TreemapVisualization.tsx)\<close>

datatype node_type = Folder | ModuleType module_type

text \<open>\<open>TreemapNodeData\<close>.  The code always creates \<open>children\<close> as an array, so it is a
  list here; \<open>value\<close>, \<open>type\<close> and \<open>data\<close> may be undefined.  The file holds a second
  copy of the component, which also gives the root the type \<open>folder\<close> and the value 0
  and copies the size of the module into the leaf; the values of the hierarchy are the
  same.\<close>

datatype TreemapNodeData =
  TreemapNodeData
    (td_name: string)
    (td_path: string)
    (td_children: "TreemapNodeData list")
    (td_value: "nat option")
    (td_type: "node_type option")
    (td_data: "normalized_module option")

definition rootData :: TreemapNodeData where
  "rootData = TreemapNodeData ''root'' [] [] None None None"

text \<open>Mutation of the object that \<open>children.find\<close> returns: the first match.\<close>

fun update_first :: "('a \<Rightarrow> bool) \<Rightarrow> ('a \<Rightarrow> 'a) \<Rightarrow> 'a list \<Rightarrow> 'a list" where
  "update_first P f [] = []"
| "update_first P f (x # xs) = (if P x then f x # xs else x # update_first P f xs)"

text \<open>
  The \<open>for\<close> loop over \<open>pathParts\<close> and the two assignments after it.  The third argument
  is what is left of \<open>pathParts\<close>; the part at hand is the last one when nothing is left
  after it.
\<close>

fun descend ::
  "normalized_module \<Rightarrow> string list \<Rightarrow> string list \<Rightarrow> TreemapNodeData \<Rightarrow> TreemapNodeData" where
  "descend module cur [] (TreemapNodeData n p cs v t d) =
     TreemapNodeData n p cs (Some (raw (nm_size module))) t (Some module)"
| "descend module cur (part # rest) (TreemapNodeData n p cs v t d) =
     (let currentPathArray = cur @ [part];
          fullPath = join_slash currentPathArray in
      case find (\<lambda>c. td_name c = part) cs of
        None \<Rightarrow>
          TreemapNodeData n p
            (cs @ [descend module currentPathArray rest
                     (TreemapNodeData part fullPath [] (Some 0)
                        (Some (if rest = [] then ModuleType (nm_type module) else Folder))
                        None)])
            v t d
      | Some existingChild \<Rightarrow>
          TreemapNodeData n p
            (update_first (\<lambda>c. td_name c = part)
               (\<lambda>c. descend module currentPathArray rest c) cs)
            v t d)"

definition add_module :: "normalized_module \<Rightarrow> TreemapNodeData \<Rightarrow> TreemapNodeData" where
  "add_module module root = descend module [] (split_slash (nm_path module)) root"

definition build_rootData :: "normalized_module list \<Rightarrow> TreemapNodeData" where
  "build_rootData modules = fold add_module modules rootData"

text \<open>
  The d3-hierarchy library, as its documentation and source define it:
  \<open>d3.hierarchy(data)\<close> makes one node per datum, a datum with an empty \<open>children\<close> array
  giving a node without children; \<open>node.sum(value)\<close> sets, bottom-up, the value of every
  node to \<open>value(node.data)\<close> plus the values of its children; \<open>node.sort(compare)\<close>
  sorts, top-down, the children of every node with \<open>Array.prototype.sort\<close>, which is
  stable.
\<close>

datatype hnode =
  HNode (h_data: TreemapNodeData) (h_value: "nat option") (h_children: "hnode list")

fun hierarchy :: "TreemapNodeData \<Rightarrow> hnode" where
  "hierarchy (TreemapNodeData n p cs v t d) =
     HNode (TreemapNodeData n p cs v t d) None (map hierarchy cs)"

definition or0 :: "nat option \<Rightarrow> nat" where
  "or0 v = (case v of None \<Rightarrow> 0 | Some n \<Rightarrow> n)"

fun sum_d3 :: "(TreemapNodeData \<Rightarrow> nat) \<Rightarrow> hnode \<Rightarrow> hnode" where
  "sum_d3 val (HNode d v cs) =
     (let children = map (sum_d3 val) cs in
      HNode d (Some (val d + sum_list (map (\<lambda>c. or0 (h_value c)) children))) children)"

fun insert_by :: "('a \<Rightarrow> 'a \<Rightarrow> int) \<Rightarrow> 'a \<Rightarrow> 'a list \<Rightarrow> 'a list" where
  "insert_by compare x [] = [x]"
| "insert_by compare x (y # ys) =
     (if compare x y \<le> 0 then x # y # ys else y # insert_by compare x ys)"

definition stable_sort :: "('a \<Rightarrow> 'a \<Rightarrow> int) \<Rightarrow> 'a list \<Rightarrow> 'a list" where
  "stable_sort compare xs = foldr (insert_by compare) xs []"

function sort_d3 :: "(hnode \<Rightarrow> hnode \<Rightarrow> int) \<Rightarrow> hnode \<Rightarrow> hnode" where
  "sort_d3 compare (HNode d v cs) = HNode d v (map (sort_d3 compare) (stable_sort compare cs))"
  by pat_completeness auto
termination
proof (relation "measure (\<lambda>(compare, n). size n)")
  show "wf (measure (\<lambda>(compare :: hnode \<Rightarrow> hnode \<Rightarrow> int, n :: hnode). size n))"
    by simp
next
  fix compare :: "hnode \<Rightarrow> hnode \<Rightarrow> int" and d v cs and x :: hnode
  assume x: "x \<in> set (stable_sort compare cs)"
  have ins: "set (insert_by compare y ys) = insert y (set ys)" for y and ys :: "hnode list"
    by (induction ys) auto
  have "set (stable_sort compare cs) = set cs"
    by (induction cs) (auto simp: stable_sort_def ins)
  with x have "x \<in> set cs"
    by simp
  then have "size x \<le> size_list size cs"
    by (rule size_list_estimation') simp
  then show "((compare, x), (compare, HNode d v cs)) \<in> measure (\<lambda>(compare, n). size n)"
    by simp
qed

text \<open>\<open>d3.hierarchy(rootData).sum(d => d.value || 0)
        .sort((a, b) => (b.value || 0) - (a.value || 0))\<close>\<close>

definition by_value_desc :: "hnode \<Rightarrow> hnode \<Rightarrow> int" where
  "by_value_desc a b = int (or0 (h_value b)) - int (or0 (h_value a))"

definition summed_root :: "normalized_module list \<Rightarrow> hnode" where
  "summed_root modules = sum_d3 (\<lambda>d. or0 (td_value d)) (hierarchy (build_rootData modules))"

definition treemap_root :: "normalized_module list \<Rightarrow> hnode" where
  "treemap_root modules = sort_d3 by_value_desc (summed_root modules)"

text \<open>\<open>root.descendants()\<close>: the node and everything below it.\<close>

fun descendants :: "hnode \<Rightarrow> hnode list" where
  "descendants (HNode d v cs) = HNode d v cs # concat (map descendants cs)"

section \<open>Values the documented mock input normalizes to\<close>

definition mock_normalized_module ::
  "string \<Rightarrow> string \<Rightarrow> nat \<Rightarrow> nat \<Rightarrow> module_type \<Rightarrow> string list \<Rightarrow> string list
     \<Rightarrow> normalized_module" where
  "mock_normalized_module path name sz gz ty deps dependents =
     \<lparr> nm_id = path, nm_name = name, nm_path = path,
       nm_size = \<lparr> raw = sz, gzip = Some gz \<rparr>, nm_type = ty,
       nm_dependencies = deps, nm_dependents = dependents, nm_buildTime = None \<rparr>"

definition mock_normalized_asset ::
  "string \<Rightarrow> nat \<Rightarrow> nat \<Rightarrow> module_type \<Rightarrow> string list \<Rightarrow> normalized_asset" where
  "mock_normalized_asset name sz gz ty chunks =
     \<lparr> na_name = name, na_size = \<lparr> raw = sz, gzip = Some gz \<rparr>, na_type = ty,
       na_chunks = chunks \<rparr>"

text \<open>The module map after the first pass: every id with the position of its object.\<close>

definition mock_moduleMap :: module_map where
  "mock_moduleMap =
     [''./src/index.js'' \<mapsto> 0,
      ''./src/App.js'' \<mapsto> Suc 0,
      ''./src/components/Button.js'' \<mapsto> Suc (Suc 0),
      ''./node_modules/react/index.js'' \<mapsto> Suc (Suc (Suc 0)),
      ''./node_modules/lodash/index.js'' \<mapsto> Suc (Suc (Suc (Suc 0))),
      ''./src/utils/data.js'' \<mapsto> Suc (Suc (Suc (Suc (Suc 0)))),
      ''./src/styles/main.css'' \<mapsto> Suc (Suc (Suc (Suc (Suc (Suc 0)))))]"

definition mockNormalized :: "nat \<Rightarrow> normalized_build_stats" where
  "mockNormalized now =
     \<lparr> timestamp = now,
       totalSize = \<lparr> raw = 2525000, gzip = Some 757500 \<rparr>,
       totalTime = Some 5200,
       bs_modules =
         [ mock_normalized_module ''./src/index.js'' ''index.js'' 50000 15000 Js
             [''./src/App.js''] [],
           mock_normalized_module ''./src/App.js'' ''App.js'' 80000 24000 Js
             [''./src/components/Button.js'', ''./node_modules/react/index.js'']
             [''./src/index.js'', ''./src/components/Button.js'',
              ''./node_modules/react/index.js'', ''./src/utils/data.js''],
           mock_normalized_module ''./src/components/Button.js'' ''Button.js'' 15000 4500 Js
             [''./src/App.js''] [''./src/App.js''],
           mock_normalized_module ''./node_modules/react/index.js'' ''index.js'' 180000 54000 Js
             [''./src/App.js''] [''./src/App.js''],
           mock_normalized_module ''./node_modules/lodash/index.js'' ''index.js'' 250000 75000 Js
             [''./src/utils/data.js''] [],
           mock_normalized_module ''./src/utils/data.js'' ''data.js'' 10000 3000 Js
             [''./src/App.js''] [''./node_modules/lodash/index.js''],
           mock_normalized_module ''./src/styles/main.css'' ''main.css'' 70000 21000 Css [] [] ],
       bs_assets =
         [ mock_normalized_asset ''main.js'' 1200000 360000 Js [''main''],
           mock_normalized_asset ''vendors.js'' 800000 240000 Js [''vendors''],
           mock_normalized_asset ''style.css'' 150000 45000 Css [''main''],
           mock_normalized_asset ''logo.png'' 75000 22500 Image [],
           mock_normalized_asset ''app.js.map'' 300000 90000 MapT [''main''] ],
       bs_chunks =
         [ \<lparr> nc_id = ''main'', nc_name = ''main'',
             nc_size = \<lparr> raw = 1350000, gzip = Some 405000 \<rparr>,
             nc_modules =
               [''./src/index.js'', ''./src/App.js'', ''./src/components/Button.js'',
                ''./src/utils/data.js'', ''./src/styles/main.css''] \<rparr>,
           \<lparr> nc_id = ''vendors'', nc_name = ''vendors'',
             nc_size = \<lparr> raw = 430000, gzip = Some 129000 \<rparr>,
             nc_modules =
               [''./node_modules/react/index.js'', ''./node_modules/lodash/index.js''] \<rparr> ],
       entrypoints = [''./src/index.js'', ''./node_modules/react/index.js''] \<rparr>"

text \<open>The modules of a build that carry a given id.\<close>

definition modules_with_id :: "string \<Rightarrow> normalized_build_stats \<Rightarrow> normalized_module list" where
  "modules_with_id i stats = filter (\<lambda>m. nm_id m = i) (bs_modules stats)"

section \<open>Inputs and predicates used in the statements\<close>

text \<open>Every module record and every asset record carries its name.\<close>

definition all_named :: "webpack_stats \<Rightarrow> bool" where
  "all_named rawStats =
     (list_all (\<lambda>m. wm_name m \<noteq> None) (case ws_modules rawStats of None \<Rightarrow> [] | Some ms \<Rightarrow> ms)
      \<and> list_all (\<lambda>a. wa_name a \<noteq> None) (case ws_assets rawStats of None \<Rightarrow> [] | Some as \<Rightarrow> as))"

text \<open>A stats object whose only collection is an empty module list.\<close>

definition empty_modules_stats :: webpack_stats where
  "empty_modules_stats =
     \<lparr> ws_time = None, ws_assets = None, ws_modules = Some [], ws_chunks = None \<rparr>"

text \<open>Three module records, the second without a name.\<close>

definition nameless_module_stats :: webpack_stats where
  "nameless_module_stats =
     \<lparr> ws_time = None,
       ws_assets = Some [],
       ws_modules = Some
         [ \<lparr> wm_id = IdNumber 1, wm_name = Some ''./a.js'', wm_size = 10,
             wm_reasons = None, wm_chunks = None \<rparr>,
           \<lparr> wm_id = IdNumber 2, wm_name = None, wm_size = 20,
             wm_reasons = None, wm_chunks = None \<rparr>,
           \<lparr> wm_id = IdNumber 3, wm_name = Some ''./c.js'', wm_size = 30,
             wm_reasons = None, wm_chunks = None \<rparr> ],
       ws_chunks = Some [] \<rparr>"

text \<open>
  The filter as the specification words it: a module passes when its type is in the set
  of active types and the query is empty or occurs in its name or in its path as a
  case-insensitive substring.  Two characters are the same but for case when they are equal
  or one is a capital letter of the alphabet and the other the same letter in small; a text
  contains a query when some part of it matches the query character by character.
\<close>

definition letter_pairs :: "(char \<times> char) list" where
  "letter_pairs = zip ''ABCDEFGHIJKLMNOPQRSTUVWXYZ'' ''abcdefghijklmnopqrstuvwxyz''"

definition same_ignoring_case :: "char \<Rightarrow> char \<Rightarrow> bool" where
  "same_ignoring_case x y =
     (x = y \<or> (x, y) \<in> set letter_pairs \<or> (y, x) \<in> set letter_pairs)"

definition equal_ignoring_case :: "string \<Rightarrow> string \<Rightarrow> bool" where
  "equal_ignoring_case a b = list_all2 same_ignoring_case a b"

definition contains_ignoring_case :: "string \<Rightarrow> string \<Rightarrow> bool" where
  "contains_ignoring_case s q =
     (\<exists>pre mid post. s = pre @ mid @ post \<and> equal_ignoring_case mid q)"

definition filter_spec ::
  "normalized_module list \<Rightarrow> module_type set \<Rightarrow> string \<Rightarrow> normalized_module list" where
  "filter_spec modules activeTypes query =
     filter (\<lambda>m. nm_type m \<in> activeTypes \<and>
                  (query = [] \<or> contains_ignoring_case (nm_name m) query
                     \<or> contains_ignoring_case (nm_path m) query))
            modules"

text \<open>The names and the paths of the modules are ASCII text.\<close>

definition ascii_modules :: "normalized_module list \<Rightarrow> bool" where
  "ascii_modules modules =
     list_all (\<lambda>m. list_all ascii (nm_name m) \<and> list_all ascii (nm_path m)) modules"

text \<open>What \<open>toLowerCase\<close> does to one character of ASCII text.\<close>

definition lower_ascii :: "char \<Rightarrow> char" where
  "lower_ascii c =
     (if 65 \<le> (of_char c :: nat) \<and> (of_char c :: nat) \<le> 90 then char_of (of_char c + (32::nat))
      else c)"

text \<open>
  A build with one module, named by the Greek letters alpha, sigma, alpha in capitals
  (U+0391, U+03A3, U+0391) and \<open>.js\<close>.
\<close>

definition sigma_stats :: normalized_build_stats where
  "sigma_stats =
     \<lparr> timestamp = 0,
       totalSize = \<lparr> raw = 0, gzip = Some 0 \<rparr>,
       totalTime = None,
       bs_modules =
         [ mock_normalized_module
             [CHR 0xCE, CHR 0x91, CHR 0xCE, CHR 0xA3, CHR 0xCE, CHR 0x91, CHR ''.'', CHR ''j'', CHR ''s'']
             [CHR 0xCE, CHR 0x91, CHR 0xCE, CHR 0xA3, CHR 0xCE, CHR 0x91, CHR ''.'', CHR ''j'', CHR ''s'']
             10 3 Js [] [] ],
       bs_assets = [],
       bs_chunks = [],
       entrypoints = [] \<rparr>"

text \<open>One asset of 7,505,999,378,950,833 bytes, and nothing else.\<close>

definition huge_asset_stats :: webpack_stats where
  "huge_asset_stats =
     \<lparr> ws_time = None,
       ws_assets = Some [\<lparr> wa_name = Some ''main.js'', wa_size = 7505999378950833,
                          wa_chunks = None \<rparr>],
       ws_modules = None,
       ws_chunks = None \<rparr>"

text \<open>All types active.\<close>

definition allTypes :: active_types where
  "allTypes = (\<lambda>t. Some True)"

text \<open>One module, in one chunk that declares no name.\<close>

definition unnamed_chunk_stats :: webpack_stats where
  "unnamed_chunk_stats =
     \<lparr> ws_time = None,
       ws_assets = None,
       ws_modules = Some
         [ \<lparr> wm_id = IdString ''./a.js'', wm_name = Some ''./a.js'', wm_size = 10,
             wm_reasons = None, wm_chunks = Some [IdNumber 0] \<rparr> ],
       ws_chunks = Some
         [ \<lparr> wc_id = IdNumber 0, wc_names = [], wc_size = 10,
             wc_modules = Some [chunk_module ''./a.js'' 10] \<rparr> ] \<rparr>"

text \<open>
  The three parts of the dependency invariant, over the module list of a build: no module
  names itself, every id named is the id of a module of the list, and \<open>b\<close> is among the
  dependencies of \<open>a\<close> exactly when \<open>a\<close> is among the dependents of \<open>b\<close>.
\<close>

definition no_self_references :: "normalized_module list \<Rightarrow> bool" where
  "no_self_references modules =
     list_all (\<lambda>a. nm_id a \<notin> set (nm_dependencies a) \<and> nm_id a \<notin> set (nm_dependents a)) modules"

definition references_present :: "normalized_module list \<Rightarrow> bool" where
  "references_present modules =
     list_all (\<lambda>a. list_all (\<lambda>i. i \<in> set (map nm_id modules)) (nm_dependencies a)
                  \<and> list_all (\<lambda>i. i \<in> set (map nm_id modules)) (nm_dependents a)) modules"

definition dependencies_symmetric :: "normalized_module list \<Rightarrow> bool" where
  "dependencies_symmetric modules =
     list_all (\<lambda>a. list_all (\<lambda>b. (nm_id b \<in> set (nm_dependencies a))
                                  = (nm_id a \<in> set (nm_dependents b))) modules) modules"

text \<open>The ids of the raw modules, coerced to strings, are pairwise distinct.\<close>

definition distinct_ids :: "webpack_stats \<Rightarrow> bool" where
  "distinct_ids rawStats =
     distinct (map (\<lambda>m. String_of (wm_id m))
                (case ws_modules rawStats of None \<Rightarrow> [] | Some ms \<Rightarrow> ms))"

text \<open>Three modules; the ids \<open>1\<close> and \<open>'1'\<close> coerce to the same string.\<close>

definition duplicate_id_stats :: webpack_stats where
  "duplicate_id_stats =
     \<lparr> ws_time = None,
       ws_assets = None,
       ws_modules = Some
         [ \<lparr> wm_id = IdNumber 1, wm_name = Some ''./a.js'', wm_size = 10,
             wm_reasons = Some [harmony ''./b.js''], wm_chunks = None \<rparr>,
           \<lparr> wm_id = IdString ''1'', wm_name = Some ''./c.js'', wm_size = 20,
             wm_reasons = None, wm_chunks = None \<rparr>,
           \<lparr> wm_id = IdString ''./b.js'', wm_name = Some ''./b.js'', wm_size = 30,
             wm_reasons = None, wm_chunks = None \<rparr> ],
       ws_chunks = None \<rparr>"

text \<open>
  What the second pass relies on and what it keeps: the module map points into the store,
  at an object with the id looked up, and the store satisfies the dependency invariant
  position by position.
\<close>

definition map_ok :: "module_map \<Rightarrow> normalized_module list \<Rightarrow> bool" where
  "map_ok moduleMap store \<longleftrightarrow>
     (\<forall>k i. moduleMap k = Some i \<longrightarrow> i < length store \<and> nm_id (store ! i) = k)"

definition deps_inv :: "normalized_module list \<Rightarrow> bool" where
  "deps_inv store \<longleftrightarrow>
     (\<forall>i < length store.
        nm_id (store ! i) \<notin> set (nm_dependencies (store ! i))
        \<and> nm_id (store ! i) \<notin> set (nm_dependents (store ! i))
        \<and> set (nm_dependencies (store ! i)) \<subseteq> set (map nm_id store)
        \<and> set (nm_dependents (store ! i)) \<subseteq> set (map nm_id store))
     \<and> (distinct (map nm_id store) \<longrightarrow>
          (\<forall>i < length store. \<forall>j < length store.
             nm_id (store ! j) \<in> set (nm_dependencies (store ! i))
             \<longleftrightarrow> nm_id (store ! i) \<in> set (nm_dependents (store ! j))))"

text \<open>Walking down a hierarchy by the names of the nodes.\<close>

definition child_named :: "string \<Rightarrow> hnode \<Rightarrow> hnode option" where
  "child_named n node = find (\<lambda>c. td_name (h_data c) = n) (h_children node)"

fun node_at :: "string list \<Rightarrow> hnode \<Rightarrow> hnode option" where
  "node_at [] node = Some node"
| "node_at (p # ps) node =
     (case child_named p node of
        None \<Rightarrow> None
      | Some c \<Rightarrow> node_at ps c)"

text \<open>Two modules, the path of the second a proper prefix of the path of the first.\<close>

definition prefix_path_modules :: "normalized_module list" where
  "prefix_path_modules =
     [ mock_normalized_module ''./lib/util.js'' ''util.js'' 3 0 Js [] [],
       mock_normalized_module ''./lib'' ''lib'' 5 1 Unknown [] [] ]"

text \<open>Three modules of the same size, not in the order of their names.\<close>

definition tie_modules :: "normalized_module list" where
  "tie_modules =
     [ mock_normalized_module ''b.js'' ''b.js'' 1 0 Js [] [],
       mock_normalized_module ''a.js'' ''a.js'' 1 0 Js [] [],
       mock_normalized_module ''c.js'' ''c.js'' 1 0 Js [] [] ]"

text \<open>
  The order the specification words: descending value, ties broken by name (in the given
  order on names).
\<close>

definition value_then_name :: "(string \<Rightarrow> string \<Rightarrow> bool) \<Rightarrow> hnode \<Rightarrow> hnode \<Rightarrow> bool" where
  "value_then_name name_order a b =
     (or0 (h_value a) > or0 (h_value b)
      \<or> (or0 (h_value a) = or0 (h_value b) \<and> name_order (td_name (h_data a)) (td_name (h_data b))))"

text \<open>
  The raw size of the module a tree node represents, if any; in a linked tree every node
  carries exactly this as its own value.
\<close>

definition own_size :: "TreemapNodeData \<Rightarrow> nat" where
  "own_size d = (case td_data d of None \<Rightarrow> 0 | Some m \<Rightarrow> raw (nm_size m))"

fun linked :: "TreemapNodeData \<Rightarrow> bool" where
  "linked (TreemapNodeData n p cs v t d) =
     (or0 v = (case d of None \<Rightarrow> 0 | Some m \<Rightarrow> raw (nm_size m)) \<and> list_all linked cs)"

text \<open>The raw input that normalizes to \<open>prefix_path_modules\<close>.\<close>

definition prefix_path_stats :: webpack_stats where
  "prefix_path_stats =
     \<lparr> ws_time = None,
       ws_assets = None,
       ws_modules = Some
         [ \<lparr> wm_id = IdString ''./lib/util.js'', wm_name = Some ''./lib/util.js'', wm_size = 3,
             wm_reasons = None, wm_chunks = None \<rparr>,
           \<lparr> wm_id = IdString ''./lib'', wm_name = Some ''./lib'', wm_size = 5,
             wm_reasons = None, wm_chunks = None \<rparr> ],
       ws_chunks = None \<rparr>"

section \<open>Properties of the numbers and the strings\<close>

subsection \<open>Doubles\<close>

lemma bit_length_upper: "n < 2 ^ bit_length n"
proof (induction n rule: bit_length.induct)
  case (1 n)
  show ?case
  proof (cases "n = 0")
    case True
    then show ?thesis by (simp add: bit_length.simps)
  next
    case False
    with 1 have "n div 2 < 2 ^ bit_length (n div 2)"
      by simp
    then have "n < 2 * 2 ^ bit_length (n div 2)"
      by arith
    with False show ?thesis
      by (simp add: bit_length.simps [of n])
  qed
qed

lemma bit_length_lower: "n \<noteq> 0 \<Longrightarrow> 2 ^ bit_length n \<le> 2 * n"
proof (induction n rule: bit_length.induct)
  case (1 n)
  show ?case
  proof (cases "n div 2 = 0")
    case True
    with "1.prems" have "n = Suc 0"
      by arith
    then show ?thesis
      by (simp add: bit_length.simps [of "Suc 0"] bit_length.simps [of 0])
  next
    case False
    with 1 have "2 ^ bit_length (n div 2) \<le> 2 * (n div 2)"
      by simp
    then have "2 * 2 ^ bit_length (n div 2) \<le> 2 * n"
      by arith
    with "1.prems" show ?thesis
      by (simp add: bit_length.simps [of n])
  qed
qed

lemma dvd_gap:
  fixes a b m :: nat
  assumes "m dvd a" and "m dvd b" and "a < b"
  shows "a + m \<le> b"
proof -
  from assms(1,2) obtain k l where a: "a = m * k" and b: "b = m * l"
    unfolding dvd_def by blast
  with assms(3) have "k < l"
    by (metis mult_less_cancel1)
  then have "m * (k + 1) \<le> m * l"
    by (intro mult_le_mono2) simp
  with a b show ?thesis
    by (simp add: algebra_simps)
qed

lemma rounding_core:
  fixes n P m Q r R K t :: nat
  assumes n: "0 < n" "n < 4503599627370496"
    and P: "P = 5404319552844595 * n"
    and m: "m dvd 18014398509481984" "4503599627370496 * m \<le> P" "P < 9007199254740992 * m"
    and Q: "P = Q + r" "r < m" "m dvd Q"
    and R: "R = (if m < 2 * r \<or> (2 * r = m \<and> up) then Q + m else Q)"
    and K: "3 * n = 10 * K + t" "t < 10"
  shows "18014398509481984 * K \<le> R \<and> R < 18014398509481984 * K + 18014398509481984"
proof
  have mK: "m dvd 18014398509481984 * K"
    using m(1) by simp
  then have mK1: "m dvd 18014398509481984 * K + 18014398509481984"
    using m(1) by simp
  have ten: "10 * P + 2 * n = 180143985094819840 * K + 18014398509481984 * t"
    using P K(1) by linarith
  show "18014398509481984 * K \<le> R"
  proof (cases "18014398509481984 * K \<le> Q")
    case True
    with R show ?thesis by simp
  next
    case False
    then have "Q < 18014398509481984 * K" by simp
    from dvd_gap [OF Q(3) mK this] have gap: "Q + m \<le> 18014398509481984 * K" .
    with Q have below: "P < 18014398509481984 * K" by linarith
    with ten n K(2) have t0: "t = 0" by linarith
    have up: "m < 2 * r"
      using gap Q ten t0 m(3) P n by linarith
    have "18014398509481984 * K \<le> Q + m"
    proof (rule ccontr)
      assume "\<not> 18014398509481984 * K \<le> Q + m"
      then have "Q + m < 18014398509481984 * K" by simp
      moreover have "m dvd Q + m" using Q(3) by simp
      ultimately have "Q + m + m \<le> 18014398509481984 * K"
        using mK dvd_gap by blast
      with Q ten t0 m(3) P n show False by linarith
    qed
    with up R show ?thesis by simp
  qed
  show "R < 18014398509481984 * K + 18014398509481984"
  proof -
    have Pb: "P < 18014398509481984 * K + 18014398509481984"
      using ten K(2) n by linarith
    with Q have "Q < 18014398509481984 * K + 18014398509481984" by linarith
    from dvd_gap [OF Q(3) mK1 this]
    have gap: "Q + m \<le> 18014398509481984 * K + 18014398509481984" .
    show ?thesis
    proof (cases "m < 2 * r \<or> (2 * r = m \<and> up)")
      case False
      with R Pb Q show ?thesis by simp
    next
      case True
      then have half: "m \<le> 2 * r" by auto
      have "Q + m \<noteq> 18014398509481984 * K + 18014398509481984"
      proof
        assume eq: "Q + m = 18014398509481984 * K + 18014398509481984"
        with Q half ten K(2) m(2) P n show False by linarith
      qed
      with gap have "Q + m < 18014398509481984 * K + 18014398509481984" by simp
      with True R show ?thesis by simp
    qed
  qed
qed

lemma bit_length_le:
  assumes "n < 2 ^ k"
  shows "bit_length n \<le> k"
proof (cases "n = 0")
  case True
  then show ?thesis by (simp add: bit_length.simps [of 0])
next
  case False
  show ?thesis
  proof (rule ccontr)
    assume "\<not> bit_length n \<le> k"
    then have "Suc k \<le> bit_length n" by simp
    then have "(2::nat) ^ Suc k \<le> 2 ^ bit_length n"
      by (rule power_increasing) simp
    with bit_length_lower [OF False] have "2 * 2 ^ k \<le> 2 * n" by simp
    with assms show False by simp
  qed
qed

lemma bit_length_ge:
  assumes "2 ^ k \<le> n"
  shows "Suc k \<le> bit_length n"
proof (rule ccontr)
  assume "\<not> Suc k \<le> bit_length n"
  then have "bit_length n \<le> k" by simp
  then have "(2::nat) ^ bit_length n \<le> 2 ^ k"
    by (rule power_increasing) simp
  with bit_length_upper [of n] have "n < 2 ^ k" by (rule less_le_trans)
  with assms show False by simp
qed

lemma approximateGzipSize_exact:
  assumes "n < 4503599627370496"
  shows "approximateGzipSize n = n * 3 div 10"
proof -
  consider "n = 0" | "n = 1" | "2 \<le> n" by linarith
  then show ?thesis
  proof cases
    case 1
    then show ?thesis
      by (simp add: approximateGzipSize_def times_three_tenths_def round_even_def
          bit_length.simps [of 0])
  next
    case 2
    have "(5404319552844595::nat) < 2 ^ 53" by simp
    then have "bit_length 5404319552844595 \<le> 53"
      by (rule bit_length_le)
    then have "bit_length 5404319552844595 - 53 = 0"
      by simp
    with 2 show ?thesis
      by (simp add: approximateGzipSize_def times_three_tenths_def round_even_def three_tenths_def)
  next
    case 3
    define P where "P = 5404319552844595 * n"
    define s where "s = bit_length P - 53"
    define m where "m = (2::nat) ^ s"
    have Ppos: "P \<noteq> 0" using 3 by (simp add: P_def)
    have "9007199254740992 \<le> P" unfolding P_def using 3 by linarith
    then have "(2::nat) ^ 53 \<le> P" by simp
    then have L1: "54 \<le> bit_length P"
      using bit_length_ge [of 53 P] by simp
    have "P < 40564819207303340847894502572032" unfolding P_def using assms by linarith
    then have "P < 2 ^ 105" by simp
    then have L2: "bit_length P \<le> 105"
      by (rule bit_length_le)
    have L: "bit_length P = s + 53" using L1 by (simp add: s_def)
    have s: "s \<le> 54" using L2 L by simp
    have m_dvd: "m dvd 18014398509481984"
    proof -
      have "(2::nat) ^ s dvd 2 ^ 54" using s by (rule le_imp_power_dvd)
      then show ?thesis by (simp add: m_def)
    qed
    have pow: "(2::nat) ^ bit_length P = m * 9007199254740992"
      by (simp add: L m_def power_add)
    have m_low: "4503599627370496 * m \<le> P"
      using bit_length_lower [OF Ppos] unfolding pow by linarith
    have m_high: "P < 9007199254740992 * m"
      using bit_length_upper [of P] unfolding pow by linarith
    have mpos: "0 < m" by (simp add: m_def)
    define Q where "Q = P div m * m"
    define r where "r = P mod m"
    have Qr: "P = Q + r" "r < m" "m dvd Q"
      using mpos by (simp_all add: Q_def r_def)
    define R where "R = round_even s P"
    have R: "R = (if m < 2 * r \<or> (2 * r = m \<and> odd (P div m)) then Q + m else Q)"
      by (simp add: R_def round_even_def Let_def m_def Q_def r_def)
    define K where "K = 3 * n div 10"
    define t where "t = 3 * n mod 10"
    have K: "3 * n = 10 * K + t" "t < 10"
      by (simp_all add: K_def t_def)
    from 3 have npos: "0 < n" by simp
    from rounding_core [OF npos assms P_def m_dvd m_low m_high Qr R K]
    have "18014398509481984 * K \<le> R" "R < 18014398509481984 * Suc K"
      by simp_all
    then have "R div 18014398509481984 = K"
      by (rule div_nat_eqI)
    moreover have "approximateGzipSize n = R div 18014398509481984"
      by (simp add: approximateGzipSize_def times_three_tenths_def three_tenths_def
          R_def s_def P_def mult.commute)
    ultimately show ?thesis
      by (simp add: K_def mult.commute)
  qed
qed

lemma round_even_le: "round_even s p \<le> p + 2 ^ s"
proof -
  have "p div 2 ^ s * 2 ^ s \<le> p"
    by simp
  then have "p div 2 ^ s * 2 ^ s \<le> p + 2 ^ s"
    by (rule trans_le_add1)
  then show ?thesis
    by (simp add: round_even_def Let_def)
qed

lemma approximateGzipSize_le: "approximateGzipSize n \<le> n"
proof (cases "n = 0")
  case True
  then show ?thesis
    by (simp add: approximateGzipSize_def times_three_tenths_def round_even_def
        bit_length.simps [of 0])
next
  case False
  define P where "P = 5404319552844595 * n"
  define s where "s = bit_length P - 53"
  define m where "m = (2::nat) ^ s"
  define R where "R = round_even s P"
  have Ppos: "P \<noteq> 0" using False by (simp add: P_def)
  have "4503599627370496 \<le> P" unfolding P_def using False by linarith
  then have "(2::nat) ^ 52 \<le> P" by simp
  then have "53 \<le> bit_length P"
    using bit_length_ge [of 52 P] by simp
  then have L: "bit_length P = s + 53" by (simp add: s_def)
  have pow: "(2::nat) ^ bit_length P = m * 9007199254740992"
    by (simp add: L m_def power_add)
  have m_low: "4503599627370496 * m \<le> P"
    using bit_length_lower [OF Ppos] unfolding pow by linarith
  have "R \<le> P + m"
    unfolding R_def m_def by (rule round_even_le)
  with m_low have "R \<le> 18014398509481984 * n"
    unfolding P_def by linarith
  then have "R div 18014398509481984 \<le> 18014398509481984 * n div 18014398509481984"
    by (rule div_le_mono)
  moreover have "approximateGzipSize n = R div 18014398509481984"
    by (simp add: approximateGzipSize_def times_three_tenths_def three_tenths_def
        R_def s_def P_def mult.commute)
  ultimately show ?thesis
    by simp
qed

lemma approximateGzipSize_rounds_up:
  "approximateGzipSize 7505999378950833 = 2251799813685250"
proof -
  have "(2::nat) ^ 105 \<le> 40564819207303373574051794797635"
    by simp
  then have "106 \<le> bit_length 40564819207303373574051794797635"
    using bit_length_ge [of 105 40564819207303373574051794797635] by simp
  moreover have "(40564819207303373574051794797635::nat) < 2 ^ 106"
    by simp
  then have "bit_length 40564819207303373574051794797635 \<le> 106"
    by (rule bit_length_le)
  ultimately have "bit_length 40564819207303373574051794797635 = 106"
    by simp
  then show ?thesis
    by (simp add: approximateGzipSize_def times_three_tenths_def three_tenths_def
        round_even_def Let_def)
qed

lemma double_sum_exact:
  assumes "a + b < 9007199254740992"
  shows "double_sum a b = a + b"
proof -
  from assms have "a + b < 2 ^ 53"
    by simp
  then have "bit_length (a + b) \<le> 53"
    by (rule bit_length_le)
  then show ?thesis
    by (simp add: double_sum_def round_even_def)
qed

lemma foldl_double_sum_exact:
  "a + sum_list xs < 9007199254740992 \<Longrightarrow> foldl double_sum a xs = a + sum_list xs"
proof (induction xs arbitrary: a)
  case Nil
  then show ?case by simp
next
  case (Cons x xs)
  then have "double_sum a x = a + x"
    by (intro double_sum_exact) simp
  with Cons show ?case
    by (simp add: add.assoc)
qed

subsection \<open>Lower-casing\<close>

lemma lower_scan_ascii:
  "list_all ascii s \<Longrightarrow> lower_scan before s = map lower_ascii s"
proof (induction before s rule: lower_scan.induct)
  case (1 before)
  then show ?case by simp
next
  case (2 before c)
  then show ?case
    by (simp add: ascii_def lower_point_def encode_point_def lower_ascii_def uppercase_def)
next
  case (3 before c b rest)
  then show ?case
    by (simp add: ascii_def lower_point_def encode_point_def lower_ascii_def uppercase_def)
qed

lemma toLowerCase_ascii: "list_all ascii s \<Longrightarrow> toLowerCase s = map lower_ascii s"
  by (simp add: toLowerCase_def lower_scan_ascii)

lemma eq_char_of_iff: "c = char_of n \<longleftrightarrow> of_char c = take_bit 8 (n::nat)"
  using char_of_eq_iff [of n c] by auto

lemmas eval_lower = toLowerCase_def ascii_def cased_def case_ignorable_def uppercase_def
  two_bytes_def covered_def decode_point_def encode_point_def lower_point_def cased_before_def
  char_of_eq_iff eq_char_of_iff

text \<open>
  Outside ASCII: capital E with acute (U+00C9) followed by \<open>cole\<close> lower-cases to small e
  with acute (U+00E9) followed by \<open>cole\<close>.
\<close>

lemma lower_latin1_name:
  "toLowerCase [CHR 0xC3, CHR 0x89, CHR ''c'', CHR ''o'', CHR ''l'', CHR ''e'']
     = [CHR 0xC3, CHR 0xA9, CHR ''c'', CHR ''o'', CHR ''l'', CHR ''e'']"
  by (simp add: eval_lower)

section \<open>Properties of the normalizer\<close>

lemma length_modify [simp]: "length (modify i f xs) = length xs"
  by (simp add: modify_def)

lemma map_modify_same: "(\<And>x. g (f x) = g x) \<Longrightarrow> map g (modify i f xs) = map g xs"
  by (simp add: modify_def map_update list_update_same_conv)

lemma map_add_reason:
  assumes "\<And>t x. g (push_dependency t x) = g x" and "\<And>s x. g (push_dependent s x) = g x"
  shows "map g (add_reason mmap src si r store) = map g store"
  using assms by (simp add: add_reason_def Let_def map_modify_same split: option.splits)

lemma map_fold_add_reason:
  assumes "\<And>t x. g (push_dependency t x) = g x" and "\<And>s x. g (push_dependent s x) = g x"
  shows "map g (fold (add_reason mmap src si) rs store) = map g store"
  using assms by (induction rs arbitrary: store) (simp_all add: map_add_reason)

lemma map_resolve_module:
  assumes "\<And>t x. g (push_dependency t x) = g x" and "\<And>s x. g (push_dependent s x) = g x"
  shows "map g (resolve_module mmap m store) = map g store"
  using assms by (simp add: resolve_module_def Let_def map_fold_add_reason split: option.splits)

lemma map_resolution_pass:
  assumes "\<And>t x. g (push_dependency t x) = g x" and "\<And>s x. g (push_dependent s x) = g x"
  shows "map g (resolution_pass mmap ms store) = map g store"
  unfolding resolution_pass_def using assms
  by (induction ms arbitrary: store) (simp_all add: map_resolve_module)

lemma creation_pass_modules:
  "creation_pass ms (mods0, map0) = Inr (mods, mmap) \<Longrightarrow>
     \<exists>nms. map make_module ms = map Inr nms \<and> mods = mods0 @ nms"
proof (induction ms arbitrary: mods0 map0)
  case Nil
  then show ?case by simp
next
  case (Cons m ms)
  then show ?case
    by (cases "make_module m") (fastforce)+
qed

lemma asset_pass_result:
  "asset_pass as (nas0, r0, g0) = Inr (nas, r, g) \<Longrightarrow>
     \<exists>xs. map make_asset as = map Inr xs \<and> nas = nas0 @ xs
        \<and> r = foldl double_sum r0 (map wa_size as)
        \<and> g = foldl double_sum g0 (map (\<lambda>a. or0 (gzip (na_size a))) xs)"
proof (induction as arbitrary: nas0 r0 g0)
  case Nil
  then show ?case by simp
next
  case (Cons a as)
  show ?case
  proof (cases "make_asset a")
    case (Inl e)
    with Cons.prems show ?thesis by simp
  next
    case (Inr na)
    with Cons.prems have
      "asset_pass as (nas0 @ [na], double_sum r0 (wa_size a), double_sum g0 (or0 (gzip (na_size na))))
         = Inr (nas, r, g)"
      by (simp add: or0_def)
    from Cons.IH [OF this] obtain xs where
      xs: "map make_asset as = map Inr xs" "nas = (nas0 @ [na]) @ xs"
          "r = foldl double_sum (double_sum r0 (wa_size a)) (map wa_size as)"
          "g = foldl double_sum (double_sum g0 (or0 (gzip (na_size na))))
                 (map (\<lambda>a. or0 (gzip (na_size a))) xs)"
      by blast
    with Inr show ?thesis
      by (intro exI [of _ "na # xs"]) simp
  qed
qed

lemma make_module_size:
  "make_module m = Inr nm \<Longrightarrow> gzip (nm_size nm) = Some (approximateGzipSize (raw (nm_size nm)))"
  by (auto simp: make_module_def split: option.splits)

lemma make_asset_size:
  "make_asset a = Inr na \<Longrightarrow>
     gzip (na_size na) = Some (approximateGzipSize (raw (na_size na))) \<and> raw (na_size na) = wa_size a"
  by (auto simp: make_asset_def split: option.splits)

lemma map_Inr_nth: "map f xs = map Inr ys \<Longrightarrow> y \<in> set ys \<Longrightarrow> \<exists>x \<in> set xs. f x = Inr y"
  by (metis (no_types, lifting) imageE image_eqI list.set_map)

lemma process_modules_sizes:
  assumes "process_modules rm = Inr (mods, mmap)" and "m \<in> set mods"
  shows "gzip (nm_size m) = Some (approximateGzipSize (raw (nm_size m)))"
proof (cases rm)
  case None
  with assms show ?thesis by (simp add: process_modules_def)
next
  case (Some ms)
  with assms(1) obtain nms mmap' where cp: "creation_pass ms ([], Map.empty) = Inr (nms, mmap')"
    and mods: "mods = resolution_pass mmap' ms nms"
    by (auto simp: process_modules_def split: sum.splits)
  from creation_pass_modules [OF cp] have mk: "map make_module ms = map Inr nms"
    by simp
  have "map nm_size mods = map nm_size nms"
    unfolding mods by (rule map_resolution_pass) (simp_all add: push_dependency_def push_dependent_def)
  with assms(2) obtain n where n: "n \<in> set nms" "nm_size n = nm_size m"
    by (metis (no_types, lifting) imageE image_eqI list.set_map)
  from map_Inr_nth [OF mk n(1)] obtain x where "make_module x = Inr n"
    by blast
  from make_module_size [OF this] n(2) show ?thesis
    by simp
qed

lemma process_assets_sizes:
  assumes "process_assets ra = Inr (nas, r, g)"
  shows "(\<forall>a \<in> set nas. gzip (na_size a) = Some (approximateGzipSize (raw (na_size a))))
       \<and> g = foldl double_sum 0 (map (\<lambda>a. approximateGzipSize (raw (na_size a))) nas)"
proof (cases ra)
  case None
  with assms show ?thesis by (simp add: process_assets_def)
next
  case (Some as)
  with assms have "asset_pass as ([], 0, 0) = Inr (nas, r, g)"
    by (simp add: process_assets_def)
  from asset_pass_result [OF this] obtain xs where
    xs: "map make_asset as = map Inr xs" "nas = xs"
        "g = foldl double_sum 0 (map (\<lambda>a. or0 (gzip (na_size a))) xs)"
    by auto
  have each: "gzip (na_size a) = Some (approximateGzipSize (raw (na_size a)))" if "a \<in> set nas" for a
    using map_Inr_nth [OF xs(1)] that xs(2) make_asset_size by blast
  have eq: "map (\<lambda>a. or0 (gzip (na_size a))) nas
          = map (\<lambda>a. approximateGzipSize (raw (na_size a))) nas"
    by (rule map_cong) (simp_all add: each or0_def)
  have g: "g = foldl double_sum 0 (map (\<lambda>a. approximateGzipSize (raw (na_size a))) nas)"
    by (simp only: xs(3) xs(2) [symmetric] eq)
  from each g show ?thesis
    by blast
qed

text \<open>
  Claim C10, as the code has it.  For every raw input that \<open>normalizeWebpackStats\<close>
  accepts (its sizes being non-negative integers), every module and every asset of the
  output has a gzip size: the floor of the double product of its raw size and \<open>0.3\<close>,
  which is at most the raw size, and which is the floor of three tenths of the raw size
  when the raw size is below \<open>2 ^ 52\<close>.  The gzip total of the output is the sum of the
  gzip estimates of the assets, added as doubles in the order of the assets, and their
  exact sum when that is below \<open>2 ^ 53\<close>.
\<close>

theorem gzip_estimates:
  assumes "normalizeWebpackStats now rawStats = Inr stats"
  shows "(\<forall>m \<in> set (bs_modules stats).
            gzip (nm_size m) = Some (approximateGzipSize (raw (nm_size m)))
            \<and> approximateGzipSize (raw (nm_size m)) \<le> raw (nm_size m)
            \<and> (raw (nm_size m) < 4503599627370496 \<longrightarrow>
                 gzip (nm_size m) = Some (raw (nm_size m) * 3 div 10)))
       \<and> (\<forall>a \<in> set (bs_assets stats).
            gzip (na_size a) = Some (approximateGzipSize (raw (na_size a)))
            \<and> approximateGzipSize (raw (na_size a)) \<le> raw (na_size a)
            \<and> (raw (na_size a) < 4503599627370496 \<longrightarrow>
                 gzip (na_size a) = Some (raw (na_size a) * 3 div 10)))
       \<and> gzip (totalSize stats)
            = Some (foldl double_sum 0
                      (map (\<lambda>a. approximateGzipSize (raw (na_size a))) (bs_assets stats)))
       \<and> (sum_list (map (\<lambda>a. approximateGzipSize (raw (na_size a))) (bs_assets stats))
              < 9007199254740992 \<longrightarrow>
            gzip (totalSize stats)
              = Some (sum_list (map (\<lambda>a. approximateGzipSize (raw (na_size a))) (bs_assets stats))))"
proof -
  from assms obtain mods mmap nas r g where
    pm: "process_modules (ws_modules rawStats) = Inr (mods, mmap)" and
    pa: "process_assets (ws_assets rawStats) = Inr (nas, r, g)" and
    st: "bs_modules stats = mods" "bs_assets stats = nas" "totalSize stats = \<lparr> raw = r, gzip = Some g \<rparr>"
    by (auto simp: normalizeWebpackStats_def Let_def split: sum.splits)
  have exact: "foldl double_sum 0 xs = sum_list xs" if "sum_list xs < 9007199254740992" for xs
    using foldl_double_sum_exact [of 0 xs] that by simp
  show ?thesis
    using process_modules_sizes [OF pm] process_assets_sizes [OF pa] st
    by (simp add: approximateGzipSize_le approximateGzipSize_exact exact)
qed

subsection \<open>The mock input, evaluated\<close>

lemma modify_Cons_0: "modify 0 f (x # xs) = f x # xs"
  by (simp add: modify_def)

lemma modify_Cons_Suc: "modify (Suc i) f (x # xs) = x # modify i f xs"
  by (simp add: modify_def)

lemma nm_id_mock: "nm_id (mock_normalized_module p n sz gz ty ds rs) = p"
  by (simp add: mock_normalized_module_def)

lemma push_mock:
  "push_dependency t (mock_normalized_module p n sz gz ty ds rs)
     = mock_normalized_module p n sz gz ty (ds @ [t]) rs"
  "push_dependent s (mock_normalized_module p n sz gz ty ds rs)
     = mock_normalized_module p n sz gz ty ds (rs @ [s])"
  by (simp_all add: mock_normalized_module_def push_dependency_def push_dependent_def)

lemmas eval_name = getTypeFromName_def eval_lower endsWith_def lastPart_def
  approximateGzipSize_exact

lemma mock_make_module:
  "make_module (mock_module ''./src/index.js'' 50000 rs1 c1)
     = Inr (mock_normalized_module ''./src/index.js'' ''index.js'' 50000 15000 Js [] [])"
  "make_module (mock_module ''./src/App.js'' 80000 rs2 c2)
     = Inr (mock_normalized_module ''./src/App.js'' ''App.js'' 80000 24000 Js [] [])"
  "make_module (mock_module ''./src/components/Button.js'' 15000 rs3 c3)
     = Inr (mock_normalized_module ''./src/components/Button.js'' ''Button.js'' 15000 4500 Js [] [])"
  "make_module (mock_module ''./node_modules/react/index.js'' 180000 rs4 c4)
     = Inr (mock_normalized_module ''./node_modules/react/index.js'' ''index.js'' 180000 54000 Js [] [])"
  "make_module (mock_module ''./node_modules/lodash/index.js'' 250000 rs5 c5)
     = Inr (mock_normalized_module ''./node_modules/lodash/index.js'' ''index.js'' 250000 75000 Js [] [])"
  "make_module (mock_module ''./src/utils/data.js'' 10000 rs6 c6)
     = Inr (mock_normalized_module ''./src/utils/data.js'' ''data.js'' 10000 3000 Js [] [])"
  "make_module (mock_module ''./src/styles/main.css'' 70000 rs7 c7)
     = Inr (mock_normalized_module ''./src/styles/main.css'' ''main.css'' 70000 21000 Css [] [])"
  by (simp_all add: mock_module_def make_module_def mock_normalized_module_def eval_name)

lemma mock_moduleMap_lookup:
  "mock_moduleMap ''./src/index.js'' = Some 0"
  "mock_moduleMap ''./src/App.js'' = Some (Suc 0)"
  "mock_moduleMap ''./src/components/Button.js'' = Some (Suc (Suc 0))"
  "mock_moduleMap ''./node_modules/react/index.js'' = Some (Suc (Suc (Suc 0)))"
  "mock_moduleMap ''./node_modules/lodash/index.js'' = Some (Suc (Suc (Suc (Suc 0))))"
  "mock_moduleMap ''./src/utils/data.js'' = Some (Suc (Suc (Suc (Suc (Suc 0)))))"
  "mock_moduleMap ''./src/styles/main.css'' = Some (Suc (Suc (Suc (Suc (Suc (Suc 0))))))"
  by (simp_all add: mock_moduleMap_def)

lemma mock_creation_pass:
  "creation_pass (the (ws_modules mockWebpackStats)) ([], Map.empty) =
     Inr ([ mock_normalized_module ''./src/index.js'' ''index.js'' 50000 15000 Js [] [],
            mock_normalized_module ''./src/App.js'' ''App.js'' 80000 24000 Js [] [],
            mock_normalized_module ''./src/components/Button.js'' ''Button.js'' 15000 4500 Js [] [],
            mock_normalized_module ''./node_modules/react/index.js'' ''index.js'' 180000 54000 Js [] [],
            mock_normalized_module ''./node_modules/lodash/index.js'' ''index.js'' 250000 75000 Js [] [],
            mock_normalized_module ''./src/utils/data.js'' ''data.js'' 10000 3000 Js [] [],
            mock_normalized_module ''./src/styles/main.css'' ''main.css'' 70000 21000 Css [] [] ],
          mock_moduleMap)"
  by (simp add: mockWebpackStats_def mock_make_module mock_moduleMap_def nm_id_mock)

lemma mock_resolve:
  "mock_moduleMap src = Some si \<Longrightarrow>
   resolve_module mock_moduleMap (mock_module src sz rs c) store
     = fold (add_reason mock_moduleMap src si) (map harmony rs) store"
  by (simp add: resolve_module_def mock_module_def)

lemma mock_add_reason:
  "mock_moduleMap tgt = Some ti \<Longrightarrow> src \<noteq> tgt \<Longrightarrow>
   add_reason mock_moduleMap src si (harmony tgt) store
     = modify ti (push_dependent src) (modify si (push_dependency tgt) store)"
  by (simp add: add_reason_def harmony_def)

lemma mock_process_modules:
  "process_modules (ws_modules mockWebpackStats) =
     Inr ([ mock_normalized_module ''./src/index.js'' ''index.js'' 50000 15000 Js
              [''./src/App.js''] [],
            mock_normalized_module ''./src/App.js'' ''App.js'' 80000 24000 Js
              [''./src/components/Button.js'', ''./node_modules/react/index.js'']
              [''./src/index.js'', ''./src/components/Button.js'',
               ''./node_modules/react/index.js'', ''./src/utils/data.js''],
            mock_normalized_module ''./src/components/Button.js'' ''Button.js'' 15000 4500 Js
              [''./src/App.js''] [''./src/App.js''],
            mock_normalized_module ''./node_modules/react/index.js'' ''index.js'' 180000 54000 Js
              [''./src/App.js''] [''./src/App.js''],
            mock_normalized_module ''./node_modules/lodash/index.js'' ''index.js'' 250000 75000 Js
              [''./src/utils/data.js''] [],
            mock_normalized_module ''./src/utils/data.js'' ''data.js'' 10000 3000 Js
              [''./src/App.js''] [''./node_modules/lodash/index.js''],
            mock_normalized_module ''./src/styles/main.css'' ''main.css'' 70000 21000 Css [] [] ],
          mock_moduleMap)"
proof -
  have ms: "ws_modules mockWebpackStats = Some (the (ws_modules mockWebpackStats))"
    by (simp add: mockWebpackStats_def)
  show ?thesis
    unfolding process_modules_def
    apply (subst ms)
    apply (simp only: option.case mock_creation_pass sum.case prod.case)
    apply (simp add: mockWebpackStats_def resolution_pass_def mock_resolve mock_moduleMap_lookup
        mock_add_reason modify_Cons_0 modify_Cons_Suc push_mock)
    done
qed


lemma mock_make_asset:
  "make_asset (mock_asset ''main.js'' 1200000 cs1)
     = Inr (mock_normalized_asset ''main.js'' 1200000 360000 Js cs1)"
  "make_asset (mock_asset ''vendors.js'' 800000 cs2)
     = Inr (mock_normalized_asset ''vendors.js'' 800000 240000 Js cs2)"
  "make_asset (mock_asset ''style.css'' 150000 cs3)
     = Inr (mock_normalized_asset ''style.css'' 150000 45000 Css cs3)"
  "make_asset (mock_asset ''logo.png'' 75000 cs4)
     = Inr (mock_normalized_asset ''logo.png'' 75000 22500 Image cs4)"
  "make_asset (mock_asset ''app.js.map'' 300000 cs5)
     = Inr (mock_normalized_asset ''app.js.map'' 300000 90000 MapT cs5)"
  by (simp_all add: mock_asset_def make_asset_def mock_normalized_asset_def eval_name comp_def)

lemma gzip_mock_asset: "gzip (na_size (mock_normalized_asset n sz gz ty cs)) = Some gz"
  by (simp add: mock_normalized_asset_def)

lemma mock_process_assets:
  "process_assets (ws_assets mockWebpackStats) =
     Inr ([ mock_normalized_asset ''main.js'' 1200000 360000 Js [''main''],
            mock_normalized_asset ''vendors.js'' 800000 240000 Js [''vendors''],
            mock_normalized_asset ''style.css'' 150000 45000 Css [''main''],
            mock_normalized_asset ''logo.png'' 75000 22500 Image [],
            mock_normalized_asset ''app.js.map'' 300000 90000 MapT [''main''] ],
          2525000, 757500)"
proof -
  have sz: "wa_size (mock_asset n sz cs) = sz" for n sz cs
    by (simp add: mock_asset_def)
  show ?thesis
    by (simp add: mockWebpackStats_def process_assets_def mock_make_asset gzip_mock_asset sz
        double_sum_exact)
qed

lemma mock_process_chunks:
  "process_chunks (ws_chunks mockWebpackStats) = bs_chunks (mockNormalized now)"
  by (simp add: mockWebpackStats_def process_chunks_def make_chunk_def chunk_module_def
      approximateGzipSize_exact mockNormalized_def)

lemma mock_entrypoints:
  "determine_entrypoints mock_moduleMap (bs_chunks (mockNormalized now))
     = [''./src/index.js'', ''./node_modules/react/index.js'']"
  by (simp add: determine_entrypoints_def entrypoint_of_def mockNormalized_def
      mock_moduleMap_lookup)

lemma mock_normalize:
  "normalizeWebpackStats now mockWebpackStats = Inr (mockNormalized now)"
proof -
  have t: "ws_time mockWebpackStats = Some 5200"
    by (simp add: mockWebpackStats_def)
  show ?thesis
    unfolding normalizeWebpackStats_def mock_process_modules mock_process_assets
      mock_process_chunks [of now] Let_def sum.case prod.case mock_entrypoints t
    by (simp add: mockNormalized_def)
qed

theorem gzip_estimates_witness:
  "normalizeWebpackStats 0 mockWebpackStats = Inr (mockNormalized 0)
   \<and> list_all (\<lambda>m. gzip (nm_size m) = Some (approximateGzipSize (raw (nm_size m)))
                    \<and> approximateGzipSize (raw (nm_size m)) \<le> raw (nm_size m)
                    \<and> raw (nm_size m) < 4503599627370496
                    \<and> gzip (nm_size m) = Some (raw (nm_size m) * 3 div 10))
         (bs_modules (mockNormalized 0))
   \<and> list_all (\<lambda>a. gzip (na_size a) = Some (approximateGzipSize (raw (na_size a)))
                    \<and> approximateGzipSize (raw (na_size a)) \<le> raw (na_size a)
                    \<and> raw (na_size a) < 4503599627370496
                    \<and> gzip (na_size a) = Some (raw (na_size a) * 3 div 10))
         (bs_assets (mockNormalized 0))
   \<and> map (\<lambda>a. gzip (na_size a)) (bs_assets (mockNormalized 0))
       = [Some 360000, Some 240000, Some 45000, Some 22500, Some 90000]
   \<and> sum_list (map (\<lambda>a. approximateGzipSize (raw (na_size a))) (bs_assets (mockNormalized 0)))
       = 757500
   \<and> (757500::nat) < 9007199254740992
   \<and> gzip (totalSize (mockNormalized 0)) = Some 757500"
proof -
  have run: "normalizeWebpackStats 0 mockWebpackStats = Inr (mockNormalized 0)"
    by (rule mock_normalize)
  have small: "list_all (\<lambda>m. raw (nm_size m) < 4503599627370496) (bs_modules (mockNormalized 0))"
    "list_all (\<lambda>a. raw (na_size a) < 4503599627370496) (bs_assets (mockNormalized 0))"
    by (simp_all add: mockNormalized_def mock_normalized_module_def mock_normalized_asset_def)
  have each: "map (\<lambda>a. gzip (na_size a)) (bs_assets (mockNormalized 0))
       = [Some 360000, Some 240000, Some 45000, Some 22500, Some 90000]"
    by (simp add: mockNormalized_def mock_normalized_asset_def)
  have total: "sum_list (map (\<lambda>a. approximateGzipSize (raw (na_size a))) (bs_assets (mockNormalized 0)))
       = 757500"
    by (simp add: mockNormalized_def mock_normalized_asset_def approximateGzipSize_exact)
  have added: "foldl double_sum 0
      (map (\<lambda>a. approximateGzipSize (raw (na_size a))) (bs_assets (mockNormalized 0))) = 757500"
    by (simp add: mockNormalized_def mock_normalized_asset_def approximateGzipSize_exact
        double_sum_exact)
  from gzip_estimates [OF run] run small each total added show ?thesis
    by (simp add: list_all_iff approximateGzipSize_exact)
qed

text \<open>
  Claim C10 as stated fails on large sizes: for an asset of 7,505,999,378,950,833 bytes, a
  size below \<open>2 ^ 53\<close>, the double product with \<open>0.3\<close> rounds up to 2,251,799,813,685,250
  and the gzip size is that number, while three tenths of the size is
  2,251,799,813,685,249.9, with floor 2,251,799,813,685,249.
\<close>

theorem gzip_rounding_counterexample:
  "normalizeWebpackStats 0 huge_asset_stats =
     Inr \<lparr> timestamp = 0,
           totalSize = \<lparr> raw = 7505999378950833, gzip = Some 2251799813685250 \<rparr>,
           totalTime = None,
           bs_modules = [],
           bs_assets = [\<lparr> na_name = ''main.js'',
                          na_size = \<lparr> raw = 7505999378950833, gzip = Some 2251799813685250 \<rparr>,
                          na_type = Js, na_chunks = [] \<rparr>],
           bs_chunks = [],
           entrypoints = [] \<rparr>
   \<and> (7505999378950833::nat) * 3 div 10 = 2251799813685249"
proof -
  have "make_asset \<lparr> wa_name = Some ''main.js'', wa_size = 7505999378950833, wa_chunks = None \<rparr>
      = Inr \<lparr> na_name = ''main.js'',
              na_size = \<lparr> raw = 7505999378950833, gzip = Some 2251799813685250 \<rparr>,
              na_type = Js, na_chunks = [] \<rparr>"
    by (simp add: make_asset_def approximateGzipSize_rounds_up getTypeFromName_def eval_lower
        endsWith_def)
  then show ?thesis
    by (simp add: huge_asset_stats_def normalizeWebpackStats_def process_modules_def
        process_assets_def process_chunks_def determine_entrypoints_def double_sum_exact)
qed

text \<open>
  Claim C3, as the code has it.  Normalizing the documented mock input gives a raw total
  of 2,525,000 bytes, seven modules and two chunks, and exactly one module with the id
  \<open>./src/App.js\<close>; its dependencies are \<open>Button.js\<close> and \<open>react\<close>, in this order, and its
  dependents are the four modules that name it in their reasons: \<open>index.js\<close>,
  \<open>Button.js\<close>, \<open>react\<close> and \<open>data.js\<close>.
\<close>

theorem mock_normalization:
  "\<exists>stats app.
     normalizeWebpackStats now mockWebpackStats = Inr stats
     \<and> loadAndProcessStatsFile now mockWebpackStats = Inr stats
     \<and> raw (totalSize stats) = 2525000
     \<and> length (bs_modules stats) = 7
     \<and> length (bs_chunks stats) = 2
     \<and> modules_with_id ''./src/App.js'' stats = [app]
     \<and> nm_dependencies app = [''./src/components/Button.js'', ''./node_modules/react/index.js'']
     \<and> nm_dependents app =
          [''./src/index.js'', ''./src/components/Button.js'',
           ''./node_modules/react/index.js'', ''./src/utils/data.js'']"
proof -
  have load: "loadAndProcessStatsFile now mockWebpackStats = Inr (mockNormalized now)"
    by (simp add: loadAndProcessStatsFile_def loadWebpackStats_def mock_normalize)
       (simp add: mockWebpackStats_def)
  have app: "modules_with_id ''./src/App.js'' (mockNormalized now)
      = [mock_normalized_module ''./src/App.js'' ''App.js'' 80000 24000 Js
           [''./src/components/Button.js'', ''./node_modules/react/index.js'']
           [''./src/index.js'', ''./src/components/Button.js'',
            ''./node_modules/react/index.js'', ''./src/utils/data.js'']]"
    by (simp add: modules_with_id_def mockNormalized_def nm_id_mock)
  show ?thesis
    apply (rule exI [of _ "mockNormalized now"])
    apply (rule exI [of _ "mock_normalized_module ''./src/App.js'' ''App.js'' 80000 24000 Js
           [''./src/components/Button.js'', ''./node_modules/react/index.js'']
           [''./src/index.js'', ''./src/components/Button.js'',
            ''./node_modules/react/index.js'', ''./src/utils/data.js'']"])
    apply (simp only: mock_normalize load app)
    apply (simp add: mockNormalized_def mock_normalized_module_def)
    done
qed

text \<open>
  Claim C3 as stated fails: in the normalized mock input the second module is
  \<open>./src/App.js\<close>, and its dependents are not the single module \<open>./src/index.js\<close>.
\<close>

theorem mock_dependents_counterexample:
  "normalizeWebpackStats 0 mockWebpackStats = Inr (mockNormalized 0)
   \<and> modules_with_id ''./src/App.js'' (mockNormalized 0) = [bs_modules (mockNormalized 0) ! 1]
   \<and> set (nm_dependents (bs_modules (mockNormalized 0) ! 1)) \<noteq> {''./src/index.js''}"
proof -
  have "modules_with_id ''./src/App.js'' (mockNormalized 0) = [bs_modules (mockNormalized 0) ! 1]"
    by (simp add: modules_with_id_def mockNormalized_def nm_id_mock)
  moreover have "''./src/utils/data.js''
      \<in> set (nm_dependents (bs_modules (mockNormalized 0) ! 1))"
    by (simp add: mockNormalized_def mock_normalized_module_def)
  moreover have "''./src/utils/data.js'' \<notin> {''./src/index.js''}"
    by simp
  ultimately show ?thesis
    using mock_normalize [of 0] by metis
qed

subsection \<open>Errors\<close>

lemma make_module_error: "make_module m = Inl e \<Longrightarrow> e = TypeError \<and> wm_name m = None"
  by (auto simp: make_module_def split: option.splits)

lemma make_module_ok: "make_module m = Inr nm \<Longrightarrow> wm_name m = Some (nm_path nm) \<and> nm_id nm = String_of (wm_id m)"
  by (auto simp: make_module_def split: option.splits)

lemma make_asset_error: "make_asset a = Inl e \<Longrightarrow> e = TypeError \<and> wa_name a = None"
  by (auto simp: make_asset_def split: option.splits)

lemma creation_pass_error:
  "creation_pass ms st = Inl e \<Longrightarrow> e = TypeError \<and> list_ex (\<lambda>m. wm_name m = None) ms"
proof (induction ms arbitrary: st)
  case Nil
  then show ?case by simp
next
  case (Cons m ms)
  obtain mods mmap where st: "st = (mods, mmap)"
    by (cases st)
  show ?case
  proof (cases "make_module m")
    case (Inl e')
    with Cons.prems st make_module_error [OF Inl] show ?thesis by simp
  next
    case (Inr nm)
    with Cons.prems st Cons.IH show ?thesis by simp
  qed
qed

lemma creation_pass_nameless:
  "list_ex (\<lambda>m. wm_name m = None) ms \<Longrightarrow> creation_pass ms st = Inl TypeError"
proof (induction ms arbitrary: st)
  case Nil
  then show ?case by simp
next
  case (Cons m ms)
  obtain mods mmap where st: "st = (mods, mmap)"
    by (cases st)
  show ?case
  proof (cases "wm_name m")
    case None
    then show ?thesis by (simp add: st make_module_def)
  next
    case (Some n)
    with Cons.prems have "list_ex (\<lambda>m. wm_name m = None) ms"
      by simp
    from Cons.IH [OF this] Some show ?thesis
      by (simp add: st make_module_def)
  qed
qed

lemma asset_pass_error:
  "asset_pass as st = Inl e \<Longrightarrow> e = TypeError \<and> list_ex (\<lambda>a. wa_name a = None) as"
proof (induction as arbitrary: st)
  case Nil
  then show ?case by simp
next
  case (Cons a as)
  obtain nas r g where st: "st = (nas, r, g)"
    by (cases st)
  show ?case
  proof (cases "make_asset a")
    case (Inl e')
    with Cons.prems st make_asset_error [OF Inl] show ?thesis by simp
  next
    case (Inr na)
    with Cons.prems st Cons.IH show ?thesis by simp
  qed
qed

lemma process_modules_error:
  "process_modules rm = Inl e \<Longrightarrow>
     e = TypeError \<and> (\<exists>ms. rm = Some ms \<and> list_ex (\<lambda>m. wm_name m = None) ms)"
  by (auto simp: process_modules_def split: option.splits sum.splits dest: creation_pass_error)

lemma process_assets_error:
  "process_assets ra = Inl e \<Longrightarrow>
     e = TypeError \<and> (\<exists>as. ra = Some as \<and> list_ex (\<lambda>a. wa_name a = None) as)"
  by (auto simp: process_assets_def split: option.splits dest: asset_pass_error)

lemma normalize_error:
  assumes "normalizeWebpackStats now rawStats = Inl e"
  shows "e = TypeError \<and> \<not> all_named rawStats"
proof (cases "process_modules (ws_modules rawStats)")
  case (Inl e')
  with assms have "e' = e"
    by (simp add: normalizeWebpackStats_def)
  with process_modules_error [OF Inl] show ?thesis
    by (auto simp: all_named_def list_ex_iff list_all_iff)
next
  case (Inr r)
  show ?thesis
  proof (cases "process_assets (ws_assets rawStats)")
    case (Inl e')
    with Inr assms have "e' = e"
      by (simp add: normalizeWebpackStats_def split: prod.splits)
    with process_assets_error [OF Inl] show ?thesis
      by (auto simp: all_named_def list_ex_iff list_all_iff)
  next
    case (Inr r')
    with \<open>process_modules (ws_modules rawStats) = Inr r\<close> assms show ?thesis
      by (simp add: normalizeWebpackStats_def Let_def split: prod.splits)
  qed
qed

lemma normalize_empty_collections:
  assumes "normalizeWebpackStats now rawStats = Inr stats"
  shows "(ws_modules rawStats = Some [] \<longrightarrow> bs_modules stats = [])
       \<and> (ws_assets rawStats = Some [] \<longrightarrow> bs_assets stats = [])
       \<and> (ws_chunks rawStats = Some [] \<longrightarrow> bs_chunks stats = [])"
  using assms
  by (auto simp: normalizeWebpackStats_def Let_def process_modules_def process_assets_def
      process_chunks_def resolution_pass_def split: sum.splits prod.splits)

text \<open>
  Claim C5.  Loading fails with \<open>InvalidFormat\<close> if and only if the raw stats object has
  none of the three collections.  A collection that is present but empty comes out as the
  empty list, and when some collection is present and no record lacks its name the load
  returns a build.
\<close>

theorem invalid_format_iff:
  "(loadAndProcessStatsFile now parsed = Inl InvalidFormat
      \<longleftrightarrow> ws_modules parsed = None \<and> ws_assets parsed = None \<and> ws_chunks parsed = None)
   \<and> (\<forall>stats. loadAndProcessStatsFile now parsed = Inr stats \<longrightarrow>
         (ws_modules parsed = Some [] \<longrightarrow> bs_modules stats = [])
       \<and> (ws_assets parsed = Some [] \<longrightarrow> bs_assets stats = [])
       \<and> (ws_chunks parsed = Some [] \<longrightarrow> bs_chunks stats = []))
   \<and> (all_named parsed
        \<and> \<not> (ws_modules parsed = None \<and> ws_assets parsed = None \<and> ws_chunks parsed = None)
       \<longrightarrow> (\<exists>stats. loadAndProcessStatsFile now parsed = Inr stats))"
proof (cases "ws_modules parsed = None \<and> ws_assets parsed = None \<and> ws_chunks parsed = None")
  case True
  then show ?thesis
    by (simp add: loadAndProcessStatsFile_def loadWebpackStats_def)
next
  case False
  then have run: "loadAndProcessStatsFile now parsed = normalizeWebpackStats now parsed"
    by (auto simp: loadAndProcessStatsFile_def loadWebpackStats_def)
  have "normalizeWebpackStats now parsed \<noteq> Inl InvalidFormat"
    using normalize_error by fastforce
  moreover have "\<exists>stats. normalizeWebpackStats now parsed = Inr stats" if "all_named parsed"
    using that normalize_error by (cases "normalizeWebpackStats now parsed") auto
  ultimately show ?thesis
    using False run normalize_empty_collections by auto
qed

theorem invalid_format_iff_witness:
  "all_named empty_modules_stats
   \<and> ws_modules empty_modules_stats = Some []
   \<and> loadAndProcessStatsFile 0 empty_modules_stats \<noteq> Inl InvalidFormat
   \<and> (\<exists>stats. loadAndProcessStatsFile 0 empty_modules_stats = Inr stats \<and> bs_modules stats = [])"
proof -
  have named: "all_named empty_modules_stats"
    by (simp add: all_named_def empty_modules_stats_def)
  have present: "ws_modules empty_modules_stats = Some []"
    by (simp add: empty_modules_stats_def)
  from invalid_format_iff [of 0 empty_modules_stats] named present show ?thesis
    by auto
qed

text \<open>
  Claim C6, as the code has it.  No module record is ever skipped.  When a module record
  has no name the whole normalization fails with a \<open>TypeError\<close>; when the normalization
  returns, the output has one module per raw module record, in the order of the input,
  with the record's id and name.
\<close>

theorem missing_name_aborts:
  assumes "ws_modules rawStats = Some ms"
  shows "(list_ex (\<lambda>m. wm_name m = None) ms \<longrightarrow> normalizeWebpackStats now rawStats = Inl TypeError)
       \<and> (\<forall>stats. normalizeWebpackStats now rawStats = Inr stats \<longrightarrow>
             map nm_id (bs_modules stats) = map (\<lambda>m. String_of (wm_id m)) ms
           \<and> map (\<lambda>m. Some (nm_path m)) (bs_modules stats) = map wm_name ms)"
proof (intro conjI impI allI)
  assume "list_ex (\<lambda>m. wm_name m = None) ms"
  then have "creation_pass ms ([], Map.empty) = Inl TypeError"
    by (rule creation_pass_nameless)
  then show "normalizeWebpackStats now rawStats = Inl TypeError"
    by (simp add: normalizeWebpackStats_def process_modules_def assms)
next
  fix stats
  assume ok: "normalizeWebpackStats now rawStats = Inr stats"
  then obtain nms mmap where cp: "creation_pass ms ([], Map.empty) = Inr (nms, mmap)"
    and mods: "bs_modules stats = resolution_pass mmap ms nms"
    by (auto simp: normalizeWebpackStats_def process_modules_def assms Let_def
        split: sum.splits prod.splits)
  from creation_pass_modules [OF cp] have mk: "map make_module ms = map Inr nms"
    by simp
  have ids: "map nm_id nms = map (\<lambda>m. String_of (wm_id m)) ms
      \<and> map (\<lambda>m. Some (nm_path m)) nms = map wm_name ms"
    using mk
  proof (induction ms arbitrary: nms)
    case Nil
    then show ?case by simp
  next
    case (Cons m ms)
    then show ?case by (cases nms) (auto dest: make_module_ok)
  qed
  have "map nm_id (bs_modules stats) = map nm_id nms"
    unfolding mods by (rule map_resolution_pass) (simp_all add: push_dependency_def push_dependent_def)
  moreover have "map nm_path (bs_modules stats) = map nm_path nms"
    unfolding mods by (rule map_resolution_pass) (simp_all add: push_dependency_def push_dependent_def)
  then have "map (\<lambda>m. Some (nm_path m)) (bs_modules stats) = map (\<lambda>m. Some (nm_path m)) nms"
    by (metis (no_types, lifting) list.map_comp comp_def map_eq_conv)
  ultimately show "map nm_id (bs_modules stats) = map (\<lambda>m. String_of (wm_id m)) ms"
    and "map (\<lambda>m. Some (nm_path m)) (bs_modules stats) = map wm_name ms"
    using ids by simp_all
qed

text \<open>
  Claim C6 as stated fails: with a nameless record between two complete ones no build is
  produced from the remaining records; the normalization, and the load with it, aborts.
\<close>

theorem missing_name_counterexample:
  "normalizeWebpackStats 0 nameless_module_stats = Inl TypeError
   \<and> loadAndProcessStatsFile 0 nameless_module_stats = Inl TypeError"
  by (simp add: loadAndProcessStatsFile_def loadWebpackStats_def normalizeWebpackStats_def
      process_modules_def nameless_module_stats_def make_module_def)

theorem missing_name_aborts_witness:
  "ws_modules nameless_module_stats =
     Some [ \<lparr> wm_id = IdNumber 1, wm_name = Some ''./a.js'', wm_size = 10,
               wm_reasons = None, wm_chunks = None \<rparr>,
            \<lparr> wm_id = IdNumber 2, wm_name = None, wm_size = 20,
               wm_reasons = None, wm_chunks = None \<rparr>,
            \<lparr> wm_id = IdNumber 3, wm_name = Some ''./c.js'', wm_size = 30,
               wm_reasons = None, wm_chunks = None \<rparr> ]
   \<and> normalizeWebpackStats 0 nameless_module_stats = Inl TypeError
   \<and> normalizeWebpackStats 0 mockWebpackStats = Inr (mockNormalized 0)
   \<and> map nm_id (bs_modules (mockNormalized 0)) =
       [''./src/index.js'', ''./src/App.js'', ''./src/components/Button.js'',
        ''./node_modules/react/index.js'', ''./node_modules/lodash/index.js'',
        ''./src/utils/data.js'', ''./src/styles/main.css'']"
proof -
  have ms: "ws_modules nameless_module_stats =
     Some [ \<lparr> wm_id = IdNumber 1, wm_name = Some ''./a.js'', wm_size = 10,
               wm_reasons = None, wm_chunks = None \<rparr>,
            \<lparr> wm_id = IdNumber 2, wm_name = None, wm_size = 20,
               wm_reasons = None, wm_chunks = None \<rparr>,
            \<lparr> wm_id = IdNumber 3, wm_name = Some ''./c.js'', wm_size = 30,
               wm_reasons = None, wm_chunks = None \<rparr> ]"
    by (simp add: nameless_module_stats_def)
  have abort: "normalizeWebpackStats 0 nameless_module_stats = Inl TypeError"
    using missing_name_aborts [OF ms, of 0] by simp
  have mock_ms: "ws_modules mockWebpackStats = Some (the (ws_modules mockWebpackStats))"
    by (simp add: mockWebpackStats_def)
  have "map nm_id (bs_modules (mockNormalized 0))
      = map (\<lambda>m. String_of (wm_id m)) (the (ws_modules mockWebpackStats))"
    using missing_name_aborts [OF mock_ms, of 0] mock_normalize [of 0] by simp
  also have "\<dots> = [''./src/index.js'', ''./src/App.js'', ''./src/components/Button.js'',
        ''./node_modules/react/index.js'', ''./node_modules/lodash/index.js'',
        ''./src/utils/data.js'', ''./src/styles/main.css'']"
    by (simp add: mockWebpackStats_def mock_module_def)
  finally show ?thesis
    using ms abort mock_normalize [of 0] by simp
qed

text \<open>
  Claim C7 against the code: a chunk that declares no name takes its id as its name, so
  the test on the name lets it through, and its first resolvable module becomes an
  entrypoint.
\<close>

theorem unnamed_chunk_entrypoint:
  "ws_chunks unnamed_chunk_stats =
     Some [\<lparr> wc_id = IdNumber 0, wc_names = [], wc_size = 10,
             wc_modules = Some [chunk_module ''./a.js'' 10] \<rparr>]
   \<and> map_sum id entrypoints (normalizeWebpackStats 0 unnamed_chunk_stats) = Inr [''./a.js'']"
  by (simp add: unnamed_chunk_stats_def normalizeWebpackStats_def process_modules_def
      process_assets_def process_chunks_def make_module_def resolution_pass_def
      resolve_module_def make_chunk_def chunk_module_def determine_entrypoints_def
      entrypoint_of_def Let_def)

text \<open>The entrypoints are the contributions of the chunks, in the order of the chunks.\<close>

lemma determine_entrypoints_concat:
  "determine_entrypoints moduleMap chunks = concat (map (entrypoint_of moduleMap) chunks)"
proof -
  have "fold (\<lambda>chunk entrypoints. entrypoints @ entrypoint_of moduleMap chunk) chunks acc
      = acc @ concat (map (entrypoint_of moduleMap) chunks)" for acc
    by (induction chunks arbitrary: acc) simp_all
  then show ?thesis
    by (simp add: determine_entrypoints_def)
qed

subsection \<open>The dependency relations\<close>

lemma nth_modify:
  "i < length xs \<Longrightarrow> modify j f xs ! i = (if i = j then f (xs ! i) else xs ! i)"
  by (simp add: modify_def)

lemma push_fields:
  "nm_id (push_dependency t m) = nm_id m"
  "nm_id (push_dependent s m) = nm_id m"
  "nm_dependencies (push_dependency t m) = nm_dependencies m @ [t]"
  "nm_dependents (push_dependency t m) = nm_dependents m"
  "nm_dependencies (push_dependent s m) = nm_dependencies m"
  "nm_dependents (push_dependent s m) = nm_dependents m @ [s]"
  by (simp_all add: push_dependency_def push_dependent_def)

lemma map_ok_same_ids:
  "map_ok mmap store \<Longrightarrow> map nm_id store' = map nm_id store \<Longrightarrow> map_ok mmap store'"
  unfolding map_ok_def
  by (metis length_map nth_map)

lemma add_reason_link:
  assumes ok: "map_ok mmap store" and si: "mmap src = Some si"
    and ti: "mmap (moduleIdentifier r) = Some ti" and ne: "src \<noteq> moduleIdentifier r"
    and inv: "deps_inv store"
  shows "deps_inv (add_reason mmap src si r store)"
proof -
  define tgt where "tgt = moduleIdentifier r"
  define store' where "store' = add_reason mmap src si r store"
  have store': "store' = modify ti (push_dependent src) (modify si (push_dependency tgt) store)"
    using ti ne by (simp add: store'_def add_reason_def tgt_def)
  from ok si ti have si_lt: "si < length store" and ti_lt: "ti < length store"
    and id_si: "nm_id (store ! si) = src" and id_ti: "nm_id (store ! ti) = tgt"
    by (auto simp: map_ok_def tgt_def)
  have len: "length store' = length store"
    by (simp add: store')
  have ids: "map nm_id store' = map nm_id store"
    by (simp add: store' map_modify_same push_fields)
  have id_nth: "nm_id (store' ! i) = nm_id (store ! i)" if "i < length store" for i
    using ids that by (metis len nth_map)
  have deps: "nm_dependencies (store' ! i)
      = (if i = si then nm_dependencies (store ! i) @ [tgt] else nm_dependencies (store ! i))"
    if "i < length store" for i
    using that by (simp add: store' nth_modify push_fields)
  have depts: "nm_dependents (store' ! i)
      = (if i = ti then nm_dependents (store ! i) @ [src] else nm_dependents (store ! i))"
    if "i < length store" for i
    using that by (simp add: store' nth_modify push_fields)
  have src_in: "src \<in> set (map nm_id store)" and tgt_in: "tgt \<in> set (map nm_id store)"
    using si_lt ti_lt id_si id_ti by (metis length_map nth_map nth_mem)+
  have local: "nm_id (store' ! i) \<notin> set (nm_dependencies (store' ! i))
        \<and> nm_id (store' ! i) \<notin> set (nm_dependents (store' ! i))
        \<and> set (nm_dependencies (store' ! i)) \<subseteq> set (map nm_id store')
        \<and> set (nm_dependents (store' ! i)) \<subseteq> set (map nm_id store')"
    if i: "i < length store'" for i
  proof -
    from i len have i': "i < length store" by simp
    from inv i' have old: "nm_id (store ! i) \<notin> set (nm_dependencies (store ! i))"
      "nm_id (store ! i) \<notin> set (nm_dependents (store ! i))"
      "set (nm_dependencies (store ! i)) \<subseteq> set (map nm_id store)"
      "set (nm_dependents (store ! i)) \<subseteq> set (map nm_id store)"
      by (simp_all add: deps_inv_def)
    show ?thesis
      using old src_in tgt_in ne id_si id_ti
      by (auto simp: deps [OF i'] depts [OF i'] id_nth [OF i'] ids tgt_def)
  qed
  have sym: "nm_id (store' ! j) \<in> set (nm_dependencies (store' ! i))
        \<longleftrightarrow> nm_id (store' ! i) \<in> set (nm_dependents (store' ! j))"
    if d: "distinct (map nm_id store')" and i: "i < length store'" and j: "j < length store'"
    for i j
  proof -
    from i j len have i': "i < length store" and j': "j < length store" by simp_all
    from d ids have d': "distinct (map nm_id store)" by simp
    then have inj: "nm_id (store ! a) = nm_id (store ! b) \<longleftrightarrow> a = b"
      if "a < length store" "b < length store" for a b
      using that by (metis distinct_conv_nth length_map nth_map)
    from inv d' i' j' have old: "nm_id (store ! j) \<in> set (nm_dependencies (store ! i))
        \<longleftrightarrow> nm_id (store ! i) \<in> set (nm_dependents (store ! j))"
      by (simp add: deps_inv_def)
    have "nm_id (store ! j) = tgt \<longleftrightarrow> j = ti"
      using inj [OF j' ti_lt] id_ti by simp
    moreover have "nm_id (store ! i) = src \<longleftrightarrow> i = si"
      using inj [OF i' si_lt] id_si by simp
    ultimately show ?thesis
      using old by (auto simp: deps [OF i'] depts [OF j'] id_nth [OF i'] id_nth [OF j'])
  qed
  from local sym show ?thesis
    unfolding store'_def [symmetric] deps_inv_def by blast
qed

lemma add_reason_inv:
  assumes "map_ok mmap store" and "mmap src = Some si" and "deps_inv store"
  shows "deps_inv (add_reason mmap src si r store) \<and> map_ok mmap (add_reason mmap src si r store)"
proof -
  have ids: "map nm_id (add_reason mmap src si r store) = map nm_id store"
    by (rule map_add_reason) (simp_all add: push_fields)
  have "deps_inv (add_reason mmap src si r store)"
  proof (cases "mmap (moduleIdentifier r) \<noteq> None \<and> src \<noteq> moduleIdentifier r")
    case True
    then obtain ti where "mmap (moduleIdentifier r) = Some ti"
      by auto
    with True assms show ?thesis
      by (intro add_reason_link) simp_all
  next
    case False
    with assms(3) show ?thesis
      by (auto simp: add_reason_def)
  qed
  with map_ok_same_ids [OF assms(1) ids] show ?thesis
    by simp
qed

lemma fold_add_reason_inv:
  assumes "map_ok mmap store" and "mmap src = Some si" and "deps_inv store"
  shows "deps_inv (fold (add_reason mmap src si) rs store)
       \<and> map_ok mmap (fold (add_reason mmap src si) rs store)"
  using assms
proof (induction rs arbitrary: store)
  case Nil
  then show ?case by simp
next
  case (Cons r rs)
  from add_reason_inv [OF Cons.prems, of r] Cons.IH Cons.prems(2) show ?case
    by simp
qed

lemma resolve_module_inv:
  assumes "map_ok mmap store" and "deps_inv store"
  shows "deps_inv (resolve_module mmap m store) \<and> map_ok mmap (resolve_module mmap m store)"
  using assms fold_add_reason_inv
  by (simp add: resolve_module_def Let_def split: option.splits)

lemma resolution_pass_inv:
  assumes "map_ok mmap store" and "deps_inv store"
  shows "deps_inv (resolution_pass mmap ms store)"
  using assms unfolding resolution_pass_def
proof (induction ms arbitrary: store)
  case Nil
  then show ?case by simp
next
  case (Cons m ms)
  from resolve_module_inv [OF Cons.prems, of m] Cons.IH show ?case
    by simp
qed

lemma creation_pass_map_ok:
  assumes "creation_pass ms (mods0, map0) = Inr (mods, mmap)" and "map_ok map0 mods0"
  shows "map_ok mmap mods"
  using assms
proof (induction ms arbitrary: mods0 map0)
  case Nil
  then show ?case by simp
next
  case (Cons m ms)
  show ?case
  proof (cases "make_module m")
    case (Inl e)
    with Cons.prems show ?thesis by simp
  next
    case (Inr nm)
    with Cons.prems(1) have run:
      "creation_pass ms (mods0 @ [nm], map0(nm_id nm \<mapsto> length mods0)) = Inr (mods, mmap)"
      by simp
    have "map_ok (map0(nm_id nm \<mapsto> length mods0)) (mods0 @ [nm])"
      unfolding map_ok_def
    proof (intro allI impI)
      fix k i
      assume look: "(map0(nm_id nm \<mapsto> length mods0)) k = Some i"
      show "i < length (mods0 @ [nm]) \<and> nm_id ((mods0 @ [nm]) ! i) = k"
      proof (cases "k = nm_id nm")
        case True
        with look have "i = length mods0" by simp
        with True show ?thesis by simp
      next
        case False
        with look have "map0 k = Some i" by simp
        with Cons.prems(2) have "i < length mods0 \<and> nm_id (mods0 ! i) = k"
          by (simp add: map_ok_def)
        then show ?thesis by (simp add: nth_append)
      qed
    qed
    from Cons.IH [OF run this] show ?thesis .
  qed
qed

lemma make_module_fresh:
  "make_module m = Inr nm \<Longrightarrow> nm_dependencies nm = [] \<and> nm_dependents nm = []"
  by (auto simp: make_module_def split: option.splits)

lemma deps_inv_fresh:
  assumes "\<forall>m \<in> set store. nm_dependencies m = [] \<and> nm_dependents m = []"
  shows "deps_inv store"
  using assms by (simp add: deps_inv_def)

lemma process_modules_inv:
  assumes "process_modules rm = Inr (mods, mmap)"
  shows "deps_inv mods
       \<and> map nm_id mods = map (\<lambda>m. String_of (wm_id m)) (case rm of None \<Rightarrow> [] | Some ms \<Rightarrow> ms)"
proof (cases rm)
  case None
  with assms show ?thesis
    by (simp add: process_modules_def deps_inv_def)
next
  case (Some ms)
  with assms obtain nms where cp: "creation_pass ms ([], Map.empty) = Inr (nms, mmap)"
    and mods: "mods = resolution_pass mmap ms nms"
    by (auto simp: process_modules_def split: sum.splits)
  from creation_pass_modules [OF cp] have mk: "map make_module ms = map Inr nms"
    by simp
  have fresh: "\<forall>m \<in> set nms. nm_dependencies m = [] \<and> nm_dependents m = []"
    using map_Inr_nth [OF mk] make_module_fresh by blast
  have "map_ok mmap nms"
    by (rule creation_pass_map_ok [OF cp]) (simp add: map_ok_def)
  from resolution_pass_inv [OF this deps_inv_fresh [OF fresh]] have inv: "deps_inv mods"
    by (simp add: mods)
  have "map nm_id nms = map (\<lambda>m. String_of (wm_id m)) ms"
    using mk
  proof (induction ms arbitrary: nms)
    case Nil
    then show ?case by simp
  next
    case (Cons m ms)
    then show ?case by (cases nms) (auto simp: make_module_def split: option.splits)
  qed
  moreover have "map nm_id mods = map nm_id nms"
    unfolding mods by (rule map_resolution_pass) (simp_all add: push_fields)
  ultimately show ?thesis
    using inv Some by simp
qed

lemma deps_inv_lists:
  assumes "deps_inv mods"
  shows "no_self_references mods \<and> references_present mods
       \<and> (distinct (map nm_id mods) \<longrightarrow> dependencies_symmetric mods)"
proof -
  have "no_self_references mods"
    using assms unfolding no_self_references_def deps_inv_def list_all_iff
    by (metis in_set_conv_nth)
  moreover have "references_present mods"
    using assms unfolding references_present_def deps_inv_def list_all_iff
    by (metis in_set_conv_nth subsetD)
  moreover have "dependencies_symmetric mods" if "distinct (map nm_id mods)"
    using assms that unfolding dependencies_symmetric_def deps_inv_def list_all_iff
    by (metis in_set_conv_nth)
  ultimately show ?thesis
    by simp
qed

text \<open>
  Claim C2, as the code has it.  In every build that \<open>normalizeWebpackStats\<close> returns no
  module names itself among its dependencies or dependents, and every id named there is
  the id of a module of the build; when the ids of the raw modules, coerced to strings,
  are pairwise distinct, the two relations are symmetric.
\<close>

theorem dependency_relations:
  assumes "normalizeWebpackStats now rawStats = Inr stats"
  shows "no_self_references (bs_modules stats)
       \<and> references_present (bs_modules stats)
       \<and> (distinct_ids rawStats \<longrightarrow> dependencies_symmetric (bs_modules stats))"
proof -
  from assms obtain mmap where
    pm: "process_modules (ws_modules rawStats) = Inr (bs_modules stats, mmap)"
    by (auto simp: normalizeWebpackStats_def Let_def split: sum.splits)
  from process_modules_inv [OF pm] deps_inv_lists show ?thesis
    by (auto simp: distinct_ids_def)
qed

text \<open>
  Claim C2 as stated fails when two raw modules share an id: the module map keeps the last
  object set under the id, so the first one never receives the dependencies its reasons
  declare, while its id is entered in the dependents of the target.
\<close>

theorem duplicate_id_counterexample:
  "map_sum id (\<lambda>stats. map (\<lambda>m. (nm_id m, nm_dependencies m, nm_dependents m)) (bs_modules stats))
     (normalizeWebpackStats 0 duplicate_id_stats)
     = Inr [(''1'', [], []), (''1'', [''./b.js''], []), (''./b.js'', [], [''1''])]
   \<and> \<not> (case normalizeWebpackStats 0 duplicate_id_stats of
          Inl e \<Rightarrow> False
        | Inr stats \<Rightarrow> dependencies_symmetric (bs_modules stats))"
  by (simp add: duplicate_id_stats_def normalizeWebpackStats_def process_modules_def
      process_assets_def process_chunks_def make_module_def resolution_pass_def
      resolve_module_def add_reason_def harmony_def modify_def push_dependency_def
      push_dependent_def determine_entrypoints_def Let_def dependencies_symmetric_def)

theorem dependency_relations_witness:
  "normalizeWebpackStats 0 mockWebpackStats = Inr (mockNormalized 0)
   \<and> distinct_ids mockWebpackStats
   \<and> no_self_references (bs_modules (mockNormalized 0))
   \<and> references_present (bs_modules (mockNormalized 0))
   \<and> dependencies_symmetric (bs_modules (mockNormalized 0))"
proof -
  have d: "distinct_ids mockWebpackStats"
    by (simp add: distinct_ids_def mockWebpackStats_def mock_module_def)
  from dependency_relations [OF mock_normalize [of 0]] d mock_normalize [of 0] show ?thesis
    by simp
qed

section \<open>Properties of the filter\<close>

lemma startsWith_iff: "startsWith s q \<longleftrightarrow> (\<exists>post. s = q @ post)"
  by (induction s q rule: startsWith.induct) auto

lemma includes_str_iff: "includes_str s q \<longleftrightarrow> (\<exists>pre post. s = pre @ q @ post)"
proof (induction s)
  case Nil
  then show ?case by auto
next
  case (Cons c cs)
  show ?case
  proof
    assume "includes_str (c # cs) q"
    then consider "startsWith (c # cs) q" | "includes_str cs q"
      by auto
    then show "\<exists>pre post. c # cs = pre @ q @ post"
    proof cases
      case 1
      then obtain post where "c # cs = q @ post"
        by (auto simp: startsWith_iff)
      then have "c # cs = [] @ q @ post"
        by simp
      then show ?thesis by blast
    next
      case 2
      with Cons.IH obtain pre post where "cs = pre @ q @ post"
        by blast
      then have "c # cs = (c # pre) @ q @ post"
        by simp
      then show ?thesis by blast
    qed
  next
    assume "\<exists>pre post. c # cs = pre @ q @ post"
    then obtain pre post where eq: "c # cs = pre @ q @ post"
      by blast
    show "includes_str (c # cs) q"
    proof (cases pre)
      case Nil
      with eq have "startsWith (c # cs) q"
        by (auto simp: startsWith_iff)
      then show ?thesis by simp
    next
      case (Cons p pre')
      with eq have "cs = pre' @ q @ post"
        by simp
      with Cons.IH have "includes_str cs q"
        by blast
      then show ?thesis by simp
    qed
  qed
qed

lemma char_eq_code: "x = y \<longleftrightarrow> (of_char x :: nat) = of_char y"
  by simp

lemma of_char_lower_ascii:
  "(of_char (lower_ascii c) :: nat)
     = (if 65 \<le> (of_char c :: nat) \<and> (of_char c :: nat) \<le> 90 then of_char c + 32 else of_char c)"
  by (simp add: lower_ascii_def take_bit_eq_mod)

lemma letter_pairs_codes:
  "map (\<lambda>(a, b). (of_char a :: nat, of_char b :: nat)) letter_pairs
     = map (\<lambda>n. (n, n + 32)) [65..<91]"
  by (simp add: letter_pairs_def)

lemma letter_pairs_iff:
  "(x, y) \<in> set letter_pairs
     \<longleftrightarrow> 65 \<le> (of_char x :: nat) \<and> (of_char x :: nat) \<le> 90 \<and> (of_char y :: nat) = of_char x + 32"
proof
  assume "(x, y) \<in> set letter_pairs"
  then show "65 \<le> (of_char x :: nat) \<and> (of_char x :: nat) \<le> 90 \<and> (of_char y :: nat) = of_char x + 32"
    by (auto simp: letter_pairs_def)
next
  assume a: "65 \<le> (of_char x :: nat) \<and> (of_char x :: nat) \<le> 90 \<and> (of_char y :: nat) = of_char x + 32"
  then have "(of_char x :: nat) \<in> {65..<91}"
    by simp
  then have "(of_char x :: nat, of_char x + 32 :: nat) \<in> (\<lambda>n. (n, n + 32)) ` {65..<91}"
    by (rule imageI)
  then have "(of_char x :: nat, of_char y :: nat) \<in> set (map (\<lambda>n. (n, n + 32)) [65..<91])"
    using a by (simp only: set_map set_upt)
  then have "(of_char x :: nat, of_char y :: nat)
      \<in> set (map (\<lambda>(a, b). (of_char a, of_char b)) letter_pairs)"
    by (simp only: letter_pairs_codes)
  then obtain a b where ab: "(a, b) \<in> set letter_pairs" "(of_char a :: nat) = of_char x" "(of_char b :: nat) = of_char y"
    by auto
  then have "a = x" "b = y"
    by simp_all
  with ab(1) show "(x, y) \<in> set letter_pairs"
    by simp
qed

lemma same_ignoring_case_iff: "same_ignoring_case x y \<longleftrightarrow> lower_ascii x = lower_ascii y"
  unfolding same_ignoring_case_def letter_pairs_iff char_eq_code [of "lower_ascii x"]
    of_char_lower_ascii char_eq_code [of x y]
  by auto

lemma equal_ignoring_case_iff:
  "equal_ignoring_case a b \<longleftrightarrow> map lower_ascii a = map lower_ascii b"
proof -
  have "list_all2 (\<lambda>x y. lower_ascii x = lower_ascii y) a b
        \<longleftrightarrow> list_all2 (=) (map lower_ascii a) (map lower_ascii b)"
    by (simp add: list.rel_map)
  moreover have "same_ignoring_case = (\<lambda>x y. lower_ascii x = lower_ascii y)"
    by (intro ext) (rule same_ignoring_case_iff)
  ultimately show ?thesis
    by (simp add: equal_ignoring_case_def list.rel_eq)
qed

lemma includes_lower_iff:
  assumes "list_all ascii s" and "list_all ascii q"
  shows "includes_str (toLowerCase s) (toLowerCase q) \<longleftrightarrow> contains_ignoring_case s q"
proof
  assume "includes_str (toLowerCase s) (toLowerCase q)"
  then obtain pre post where "map lower_ascii s = pre @ map lower_ascii q @ post"
    by (auto simp: includes_str_iff toLowerCase_ascii assms)
  then obtain s1 s23 where s: "s = s1 @ s23"
    and rest: "map lower_ascii q @ post = map lower_ascii s23"
    unfolding map_eq_append_conv by blast
  from rest [symmetric] obtain s2 s3 where "s23 = s2 @ s3"
    and "map lower_ascii q = map lower_ascii s2"
    unfolding map_eq_append_conv by blast
  then have "s23 = s2 @ s3" and "map lower_ascii s2 = map lower_ascii q"
    by simp_all
  with s have "s = s1 @ s2 @ s3 \<and> equal_ignoring_case s2 q"
    by (simp add: equal_ignoring_case_iff)
  then show "contains_ignoring_case s q"
    unfolding contains_ignoring_case_def by blast
next
  assume "contains_ignoring_case s q"
  then obtain pre mid post where "s = pre @ mid @ post" and "map lower_ascii mid = map lower_ascii q"
    by (auto simp: contains_ignoring_case_def equal_ignoring_case_iff)
  then have "map lower_ascii s = map lower_ascii pre @ map lower_ascii q @ map lower_ascii post"
    by simp
  then show "includes_str (toLowerCase s) (toLowerCase q)"
    unfolding includes_str_iff toLowerCase_ascii [OF assms(1)] toLowerCase_ascii [OF assms(2)]
    by blast
qed

lemma contains_empty_query: "contains_ignoring_case s []"
  by (auto simp: contains_ignoring_case_def equal_ignoring_case_def)

lemma lower_sigma_name:
  "toLowerCase [CHR 0xCE, CHR 0x91, CHR 0xCE, CHR 0xA3, CHR 0xCE, CHR 0x91, CHR ''.'', CHR ''j'', CHR ''s'']
     = [CHR 0xCE, CHR 0xB1, CHR 0xCF, CHR 0x83, CHR 0xCE, CHR 0xB1, CHR ''.'', CHR ''j'', CHR ''s'']"
  by (simp add: eval_lower)

lemma lower_sigma_query:
  "toLowerCase [CHR 0xCE, CHR 0x91, CHR 0xCE, CHR 0xA3] = [CHR 0xCE, CHR 0xB1, CHR 0xCF, CHR 0x82]"
  by (simp add: eval_lower)

lemma lower_mock_names:
  "toLowerCase ''index.js'' = ''index.js''"
  "toLowerCase ''App.js'' = ''app.js''"
  "toLowerCase ''Button.js'' = ''button.js''"
  "toLowerCase ''data.js'' = ''data.js''"
  "toLowerCase ''main.css'' = ''main.css''"
  "toLowerCase ''./src/index.js'' = ''./src/index.js''"
  "toLowerCase ''./src/App.js'' = ''./src/app.js''"
  "toLowerCase ''./src/components/Button.js'' = ''./src/components/button.js''"
  "toLowerCase ''./node_modules/react/index.js'' = ''./node_modules/react/index.js''"
  "toLowerCase ''./node_modules/lodash/index.js'' = ''./node_modules/lodash/index.js''"
  "toLowerCase ''./src/utils/data.js'' = ''./src/utils/data.js''"
  "toLowerCase ''./src/styles/main.css'' = ''./src/styles/main.css''"
  "toLowerCase ''BUTTON'' = ''button''"
  by (simp_all add: eval_lower)

text \<open>
  Claim C4, as the code has it.  For every list of modules whose names and paths are ASCII
  text, every dictionary of active types and every ASCII query, the filter of the code
  returns exactly the modules, in input order, whose type is active and for which the
  query is empty or occurs in the name or the path as a case-insensitive substring.
\<close>

theorem filteredModules_ascii:
  assumes "ascii_modules (bs_modules stats)" and "list_all ascii query"
  shows "filteredModules (Some stats) query activeTypes
           = filter_spec (bs_modules stats) {t. activeTypes t = Some True} query"
proof -
  have empty: "(query = [] \<or> contains_ignoring_case n query \<or> contains_ignoring_case p query)
        \<longleftrightarrow> (contains_ignoring_case n query \<or> contains_ignoring_case p query)" for n p
    using contains_empty_query by auto
  have "(activeTypes (nm_type m) = Some True \<and>
           (includes_str (toLowerCase (nm_name m)) (toLowerCase query) \<or>
            includes_str (toLowerCase (nm_path m)) (toLowerCase query)))
        \<longleftrightarrow> (nm_type m \<in> {t. activeTypes t = Some True} \<and>
             (query = [] \<or> contains_ignoring_case (nm_name m) query
                \<or> contains_ignoring_case (nm_path m) query))"
    if "m \<in> set (bs_modules stats)" for m
  proof -
    from that assms(1) have "list_all ascii (nm_name m)" "list_all ascii (nm_path m)"
      by (simp_all add: ascii_modules_def list_all_iff)
    then show ?thesis
      by (simp add: includes_lower_iff assms(2) empty)
  qed
  then show ?thesis
    unfolding filteredModules_def filter_spec_def Let_def option.case
    by (intro filter_cong refl)
qed

theorem filteredModules_ascii_witness:
  "ascii_modules (bs_modules (mockNormalized 0))
   \<and> list_all ascii ''BUTTON''
   \<and> filteredModules (Some (mockNormalized 0)) ''BUTTON'' allTypes
       = filter_spec (bs_modules (mockNormalized 0)) {t. allTypes t = Some True} ''BUTTON''
   \<and> map nm_id (filteredModules (Some (mockNormalized 0)) ''BUTTON'' allTypes)
       = [''./src/components/Button.js'']"
proof -
  have a: "ascii_modules (bs_modules (mockNormalized 0))"
    by (simp add: ascii_modules_def mockNormalized_def mock_normalized_module_def ascii_def)
  have q: "list_all ascii ''BUTTON''"
    by (simp add: ascii_def)
  have "map nm_id (filteredModules (Some (mockNormalized 0)) ''BUTTON'' allTypes)
       = [''./src/components/Button.js'']"
    by (simp add: filteredModules_def mockNormalized_def mock_normalized_module_def allTypes_def
        lower_mock_names)
  with filteredModules_ascii [OF a q, of allTypes] a q show ?thesis
    by simp
qed

text \<open>
  Claim C4 as stated fails outside ASCII.  The name of the module of \<open>sigma_stats\<close> starts
  with the query, capital alpha and capital sigma, so it contains the query as a substring
  in any case, and the filter of the specification keeps the module.  The code lower-cases
  the two texts separately: the sigma of the name, followed by a letter, becomes a small
  sigma, the sigma that ends the query becomes a final sigma, the lower-cased query does not
  occur in the lower-cased name, and the filter of the code drops the module.
\<close>

theorem final_sigma_counterexample:
  "map nm_path
     (filter_spec (bs_modules sigma_stats) {t. allTypes t = Some True}
        [CHR 0xCE, CHR 0x91, CHR 0xCE, CHR 0xA3])
     = [[CHR 0xCE, CHR 0x91, CHR 0xCE, CHR 0xA3, CHR 0xCE, CHR 0x91, CHR ''.'', CHR ''j'', CHR ''s'']]
   \<and> filteredModules (Some sigma_stats) [CHR 0xCE, CHR 0x91, CHR 0xCE, CHR 0xA3] allTypes = []"
proof -
  have "[CHR 0xCE, CHR 0x91, CHR 0xCE, CHR 0xA3, CHR 0xCE, CHR 0x91, CHR ''.'', CHR ''j'', CHR ''s'']
      = [] @ [CHR 0xCE, CHR 0x91, CHR 0xCE, CHR 0xA3] @ [CHR 0xCE, CHR 0x91, CHR ''.'', CHR ''j'', CHR ''s'']"
    by simp
  moreover have "equal_ignoring_case [CHR 0xCE, CHR 0x91, CHR 0xCE, CHR 0xA3]
      [CHR 0xCE, CHR 0x91, CHR 0xCE, CHR 0xA3]"
    by (simp add: equal_ignoring_case_def same_ignoring_case_def)
  ultimately have "contains_ignoring_case
      [CHR 0xCE, CHR 0x91, CHR 0xCE, CHR 0xA3, CHR 0xCE, CHR 0x91, CHR ''.'', CHR ''j'', CHR ''s'']
      [CHR 0xCE, CHR 0x91, CHR 0xCE, CHR 0xA3]"
    unfolding contains_ignoring_case_def by blast
  then have "map nm_path
     (filter_spec (bs_modules sigma_stats) {t. allTypes t = Some True}
        [CHR 0xCE, CHR 0x91, CHR 0xCE, CHR 0xA3])
     = [[CHR 0xCE, CHR 0x91, CHR 0xCE, CHR 0xA3, CHR 0xCE, CHR 0x91, CHR ''.'', CHR ''j'', CHR ''s'']]"
    by (simp add: filter_spec_def sigma_stats_def mock_normalized_module_def allTypes_def)
  moreover have
    "filteredModules (Some sigma_stats) [CHR 0xCE, CHR 0x91, CHR 0xCE, CHR 0xA3] allTypes = []"
    by (simp add: filteredModules_def sigma_stats_def mock_normalized_module_def allTypes_def
        lower_sigma_name lower_sigma_query)
  ultimately show ?thesis
    by simp
qed

text \<open>
  Claim C9.  With every type active and the empty query the filter returns the module
  list unchanged.
\<close>

theorem filter_identity:
  assumes "\<forall>t. activeTypes t = Some True"
  shows "filteredModules (Some stats) [] activeTypes = bs_modules stats"
proof -
  have "s = [] @ [] @ s" for s :: string
    by simp
  then have "includes_str s (toLowerCase [])" for s
    unfolding includes_str_iff toLowerCase_def lower_scan.simps by blast
  with assms show ?thesis
    by (simp add: filteredModules_def Let_def)
qed

theorem filter_identity_witness:
  "allTypes Js = Some True \<and> allTypes MapT = Some True
   \<and> filteredModules (Some (mockNormalized 0)) [] allTypes = bs_modules (mockNormalized 0)"
proof -
  have "\<forall>t. allTypes t = Some True"
    by (simp add: allTypes_def)
  from filter_identity [OF this] show ?thesis
    by (simp add: allTypes_def)
qed

text \<open>
  The dictionary the application starts with activates seven of the nine types: with it
  and the empty query, the modules of type \<open>map\<close> and \<open>html\<close> are filtered out.
\<close>

lemma initialActiveTypes_filter:
  "filteredModules (Some stats) [] initialActiveTypes
     = filter (\<lambda>m. nm_type m \<noteq> MapT \<and> nm_type m \<noteq> Html) (bs_modules stats)"
proof -
  have "s = [] @ [] @ s" for s :: string
    by simp
  then have empty: "includes_str s (toLowerCase [])" for s
    unfolding includes_str_iff toLowerCase_def lower_scan.simps by blast
  have "initialActiveTypes t = Some True \<longleftrightarrow> t \<noteq> MapT \<and> t \<noteq> Html" for t
    by (cases t) (simp_all add: initialActiveTypes_def)
  with empty show ?thesis
    by (simp add: filteredModules_def Let_def)
qed

section \<open>Properties of the hierarchy\<close>

lemma nm_mock_fields:
  "nm_path (mock_normalized_module p n sz gz ty ds rs) = p"
  "nm_type (mock_normalized_module p n sz gz ty ds rs) = ty"
  "raw (nm_size (mock_normalized_module p n sz gz ty ds rs)) = sz"
  by (simp_all add: mock_normalized_module_def)

lemma tie_children:
  "map (\<lambda>c. (td_name (h_data c), h_value c)) (h_children (treemap_root tie_modules))
     = [(''b.js'', Some 1), (''a.js'', Some 1), (''c.js'', Some 1)]"
  by (simp add: treemap_root_def summed_root_def build_rootData_def tie_modules_def add_module_def rootData_def nm_mock_fields Let_def
      stable_sort_def by_value_desc_def or0_def)

lemma by_value_desc_le: "by_value_desc a b \<le> 0 \<longleftrightarrow> or0 (h_value b) \<le> or0 (h_value a)"
  by (simp add: by_value_desc_def)

lemma set_insert_by: "set (insert_by compare x ys) = insert x (set ys)"
  by (induction ys) auto

lemma set_stable_sort: "set (stable_sort compare xs) = set xs"
  by (induction xs) (auto simp: stable_sort_def set_insert_by)

lemma sorted_insert_by:
  assumes "sorted_wrt (\<lambda>a b. or0 (h_value b) \<le> or0 (h_value a)) ys"
  shows "sorted_wrt (\<lambda>a b. or0 (h_value b) \<le> or0 (h_value a)) (insert_by by_value_desc x ys)"
  using assms
proof (induction ys)
  case Nil
  then show ?case by simp
next
  case (Cons y ys)
  show ?case
  proof (cases "by_value_desc x y \<le> 0")
    case True
    then have "or0 (h_value y) \<le> or0 (h_value x)"
      by (simp add: by_value_desc_le)
    with Cons.prems True show ?thesis
      by (auto intro: order_trans)
  next
    case False
    then have "or0 (h_value x) \<le> or0 (h_value y)"
      by (simp add: by_value_desc_le)
    with Cons False show ?thesis
      by (auto simp: set_insert_by)
  qed
qed

lemma sorted_stable_sort:
  "sorted_wrt (\<lambda>a b. or0 (h_value b) \<le> or0 (h_value a)) (stable_sort by_value_desc xs)"
  by (induction xs) (simp_all add: stable_sort_def sorted_insert_by)

lemma filter_insert_by:
  "filter (\<lambda>c. or0 (h_value c) = k) (insert_by by_value_desc x ys)
     = (if or0 (h_value x) = k then x # filter (\<lambda>c. or0 (h_value c) = k) ys
        else filter (\<lambda>c. or0 (h_value c) = k) ys)"
  by (induction ys) (auto simp: by_value_desc_le)

lemma filter_stable_sort:
  "filter (\<lambda>c. or0 (h_value c) = k) (stable_sort by_value_desc xs)
     = filter (\<lambda>c. or0 (h_value c) = k) xs"
  by (induction xs) (simp_all add: stable_sort_def filter_insert_by)

lemma sort_d3_fields: "h_data (sort_d3 compare n) = h_data n" "h_value (sort_d3 compare n) = h_value n"
  by (cases n; simp)+

lemma descendants_sort_d3:
  "set (descendants (sort_d3 compare t)) = sort_d3 compare ` set (descendants t)"
proof (induction compare t rule: sort_d3.induct)
  case (1 compare d v cs)
  have "(\<Union>c \<in> set (stable_sort compare cs). set (descendants (sort_d3 compare c)))
      = (\<Union>c \<in> set (stable_sort compare cs). sort_d3 compare ` set (descendants c))"
    using "1.IH" by simp
  also have "\<dots> = sort_d3 compare ` (\<Union>c \<in> set cs. set (descendants c))"
    by (auto simp: set_stable_sort)
  finally show ?case
    by (simp add: image_Un)
qed

lemma children_of_sorted:
  "sorted_wrt (\<lambda>a b. or0 (h_value b) \<le> or0 (h_value a)) (h_children (sort_d3 by_value_desc m))
   \<and> (\<forall>k. map h_data (filter (\<lambda>c. or0 (h_value c) = k) (h_children (sort_d3 by_value_desc m)))
          = map h_data (filter (\<lambda>c. or0 (h_value c) = k) (h_children m)))"
proof (cases m)
  case (HNode d v cs)
  have "sorted_wrt (\<lambda>a b. or0 (h_value b) \<le> or0 (h_value a))
          (map (sort_d3 by_value_desc) (stable_sort by_value_desc cs))"
    by (simp add: sorted_wrt_map sort_d3_fields sorted_stable_sort)
  moreover have "map h_data (filter (\<lambda>c. or0 (h_value c) = k)
                    (map (sort_d3 by_value_desc) (stable_sort by_value_desc cs)))
      = map h_data (filter (\<lambda>c. or0 (h_value c) = k) cs)" for k
  proof -
    have "map h_data (filter (\<lambda>c. or0 (h_value c) = k)
                    (map (sort_d3 by_value_desc) (stable_sort by_value_desc cs)))
        = map h_data (filter (\<lambda>c. or0 (h_value c) = k) (stable_sort by_value_desc cs))"
      by (simp add: filter_map comp_def sort_d3_fields)
    then show ?thesis
      by (simp only: filter_stable_sort)
  qed
  ultimately show ?thesis
    using HNode by simp
qed

text \<open>
  Claim C8, as the code has it.  In every hierarchy the children of every node are sorted
  by descending value.  Ties are not broken by name: the children of one value stand in
  the order they have before the sort, which is the order of their insertion.
\<close>

theorem children_sorted_by_value:
  "\<forall>n \<in> set (descendants (treemap_root modules)).
     sorted_wrt (\<lambda>a b. or0 (h_value b) \<le> or0 (h_value a)) (h_children n)
     \<and> (\<exists>m \<in> set (descendants (summed_root modules)).
           h_data m = h_data n
           \<and> (\<forall>k. map h_data (filter (\<lambda>c. or0 (h_value c) = k) (h_children n))
                  = map h_data (filter (\<lambda>c. or0 (h_value c) = k) (h_children m))))"
proof
  fix n
  assume "n \<in> set (descendants (treemap_root modules))"
  then obtain m where m: "m \<in> set (descendants (summed_root modules))"
    and n: "n = sort_d3 by_value_desc m"
    by (auto simp: treemap_root_def descendants_sort_d3)
  from children_of_sorted [of m] m show
    "sorted_wrt (\<lambda>a b. or0 (h_value b) \<le> or0 (h_value a)) (h_children n)
     \<and> (\<exists>m \<in> set (descendants (summed_root modules)).
           h_data m = h_data n
           \<and> (\<forall>k. map h_data (filter (\<lambda>c. or0 (h_value c) = k) (h_children n))
                  = map h_data (filter (\<lambda>c. or0 (h_value c) = k) (h_children m))))"
    unfolding n by (auto simp: sort_d3_fields)
qed

text \<open>
  Claim C8 as stated fails: three modules of the same size come out in their input
  order, which is neither the ascending nor the descending order of their names.
\<close>

theorem tie_order_counterexample:
  "map (\<lambda>c. (td_name (h_data c), h_value c)) (h_children (treemap_root tie_modules))
     = [(''b.js'', Some 1), (''a.js'', Some 1), (''c.js'', Some 1)]
   \<and> \<not> sorted_wrt (value_then_name (\<le>)) (h_children (treemap_root tie_modules))
   \<and> \<not> sorted_wrt (value_then_name (\<ge>)) (h_children (treemap_root tie_modules))"
proof -
  have cs: "map (\<lambda>c. (td_name (h_data c), h_value c)) (h_children (treemap_root tie_modules))
     = [(''b.js'', Some 1), (''a.js'', Some 1), (''c.js'', Some 1)]"
    by (rule tie_children)
  then obtain b a c where abc: "h_children (treemap_root tie_modules) = [b, a, c]"
    and "td_name (h_data b) = ''b.js''" "td_name (h_data a) = ''a.js''" "td_name (h_data c) = ''c.js''"
    and "h_value b = Some 1" "h_value a = Some 1" "h_value c = Some 1"
    by (auto simp: map_eq_Cons_conv)
  then have "\<not> value_then_name (\<le>) b a" and "\<not> value_then_name (\<ge>) a c"
    by (simp_all add: value_then_name_def or0_def)
  with abc cs show ?thesis
    by simp
qed

theorem children_sorted_by_value_witness:
  "list_all (\<lambda>n. sorted_wrt (\<lambda>a b. or0 (h_value b) \<le> or0 (h_value a)) (h_children n))
     (descendants (treemap_root tie_modules))
   \<and> map (\<lambda>c. (td_name (h_data c), h_value c)) (h_children (treemap_root tie_modules))
     = [(''b.js'', Some 1), (''a.js'', Some 1), (''c.js'', Some 1)]"
  using children_sorted_by_value [of tie_modules] tie_children
  by (simp add: list_all_iff)

lemma linked_update_first:
  "list_all linked cs \<Longrightarrow> (\<And>c. c \<in> set cs \<Longrightarrow> linked c \<Longrightarrow> linked (f c))
     \<Longrightarrow> list_all linked (update_first P f cs)"
  by (induction cs) auto

lemma linked_descend: "linked node \<Longrightarrow> linked (descend module cur parts node)"
proof (induction module cur parts node rule: descend.induct)
  case (1 module cur n p cs v t d)
  then show ?case by (simp add: or0_def)
next
  case (2 module cur part rest n p cs v t d)
  show ?case
  proof (cases "find (\<lambda>c. td_name c = part) cs")
    case None
    have "linked (TreemapNodeData part (join_slash (cur @ [part])) [] (Some 0)
            (Some (if rest = [] then ModuleType (nm_type module) else Folder)) None)"
      by (simp add: or0_def)
    with "2.IH"(1) [OF refl refl None] "2.prems" None show ?thesis
      by (simp add: Let_def)
  next
    case (Some existingChild)
    have "list_all linked
        (update_first (\<lambda>c. td_name c = part) (\<lambda>c. descend module (cur @ [part]) rest c) cs)"
      using "2.prems" "2.IH"(2) [OF refl refl Some]
      by (intro linked_update_first) simp_all
    with "2.prems" Some show ?thesis
      by (simp add: Let_def)
  qed
qed

lemma linked_build: "linked (build_rootData modules)"
proof -
  have "linked root \<Longrightarrow> linked (fold add_module modules root)" for root
    by (induction modules arbitrary: root) (simp_all add: add_module_def linked_descend)
  then show ?thesis
    by (simp add: build_rootData_def rootData_def or0_def)
qed

lemma linked_own: "linked d \<Longrightarrow> or0 (td_value d) = own_size d"
  by (cases d) (simp add: own_size_def)

lemma hierarchy_fields: "h_data (hierarchy d) = d"
  by (cases d) simp

lemma sum_d3_data: "h_data (sum_d3 val n) = h_data n"
  by (cases n) (simp add: Let_def)

lemma descendants_summed:
  "linked d \<Longrightarrow> n \<in> set (descendants (sum_d3 (\<lambda>d. or0 (td_value d)) (hierarchy d))) \<Longrightarrow>
     h_value n = Some (own_size (h_data n) + sum_list (map (\<lambda>c. or0 (h_value c)) (h_children n)))"
proof (induction d arbitrary: n rule: hierarchy.induct)
  case (1 nm p cs v t d)
  let ?d = "TreemapNodeData nm p cs v t d"
  from "1.prems"(1) have cs: "\<forall>c \<in> set cs. linked c"
    by (simp add: list_all_iff)
  from "1.prems"(2) consider
    (root) "n = sum_d3 (\<lambda>d. or0 (td_value d)) (hierarchy ?d)"
    | (below) c where "c \<in> set cs"
        "n \<in> set (descendants (sum_d3 (\<lambda>d. or0 (td_value d)) (hierarchy c)))"
    by (auto simp: Let_def)
  then show ?case
  proof cases
    case root
    then show ?thesis
      using linked_own [OF "1.prems"(1)] by (simp add: Let_def comp_def)
  next
    case below
    with "1.IH" cs show ?thesis by blast
  qed
qed

lemma sum_insert_by:
  "sum_list (map g (insert_by compare x ys)) = g x + sum_list (map (g :: 'a \<Rightarrow> nat) ys)"
  by (induction ys) auto

lemma sum_stable_sort: "sum_list (map g (stable_sort compare xs)) = sum_list (map (g :: 'a \<Rightarrow> nat) xs)"
  by (induction xs) (simp_all add: stable_sort_def sum_insert_by)

lemma sort_d3_children_sum:
  "sum_list (map (\<lambda>c. or0 (h_value c)) (h_children (sort_d3 compare m)))
     = sum_list (map (\<lambda>c. or0 (h_value c)) (h_children m))"
proof (cases m)
  case (HNode d v cs)
  have "sum_list (map (\<lambda>c. or0 (h_value c)) (map (sort_d3 compare) (stable_sort compare cs)))
      = sum_list (map (\<lambda>c. or0 (h_value c)) (stable_sort compare cs))"
    by (simp add: comp_def sort_d3_fields)
  with HNode show ?thesis
    by (simp add: sum_stable_sort)
qed

text \<open>
  The value of every node of every hierarchy: the raw size of the module the node
  represents, if it represents one, plus the values of its children.
\<close>

lemma node_values:
  assumes "n \<in> set (descendants (treemap_root modules))"
  shows "h_value n
     = Some (own_size (h_data n) + sum_list (map (\<lambda>c. or0 (h_value c)) (h_children n)))"
proof -
  from assms obtain m where m: "m \<in> set (descendants (summed_root modules))"
    and n: "n = sort_d3 by_value_desc m"
    by (auto simp: treemap_root_def descendants_sort_d3)
  from descendants_summed [OF linked_build] m have
    "h_value m = Some (own_size (h_data m) + sum_list (map (\<lambda>c. or0 (h_value c)) (h_children m)))"
    by (simp add: summed_root_def)
  then show ?thesis
    by (simp add: n sort_d3_fields sort_d3_children_sum)
qed

text \<open>
  Claim C1 against the code: when the path of a module is a proper prefix of the path of
  another, the node of the first is a folder with a child, and its value is the value of
  the child plus the size of its own module: neither the sum of its children's values
  nor the raw size of the module it represents.
\<close>

theorem prefix_path_value:
  "map_sum id bs_modules (normalizeWebpackStats 0 prefix_path_stats) = Inr prefix_path_modules
   \<and> map_option (\<lambda>n. (td_type (h_data n), h_value n, map h_value (h_children n),
                       map_option (\<lambda>m. raw (nm_size m)) (td_data (h_data n))))
       (node_at [''.'', ''lib''] (treemap_root prefix_path_modules))
     = Some (Some Folder, Some 8, [Some 3], Some 5)"
proof -
  have "map_sum id bs_modules (normalizeWebpackStats 0 prefix_path_stats) = Inr prefix_path_modules"
    by (simp add: prefix_path_stats_def prefix_path_modules_def normalizeWebpackStats_def
        process_modules_def process_assets_def process_chunks_def make_module_def
        resolution_pass_def resolve_module_def determine_entrypoints_def Let_def
        mock_normalized_module_def eval_name)
  moreover have "map_option (\<lambda>n. (td_type (h_data n), h_value n, map h_value (h_children n),
                       map_option (\<lambda>m. raw (nm_size m)) (td_data (h_data n))))
       (node_at [''.'', ''lib''] (treemap_root prefix_path_modules))
     = Some (Some Folder, Some 8, [Some 3], Some 5)"
    by (simp add: treemap_root_def summed_root_def build_rootData_def prefix_path_modules_def
        add_module_def rootData_def nm_mock_fields Let_def stable_sort_def by_value_desc_def
        or0_def child_named_def)
  ultimately show ?thesis
    by simp
qed

end
